theory Spec2Isabelle
  imports Main "HOL-Library.Sublist" "HOL-Library.List_Lexorder"
begin

section \<open>Python strings\<close>

text \<open>
  A Python \<^verbatim>\<open>str\<close> is a sequence of Unicode code points, and \<^verbatim>\<open>len\<close> counts code
  points; file names in this repository are routinely Chinese.  A string is therefore a
  list of code points (natural numbers), and an ASCII literal is written \<open>asc ''...''\<close>.
\<close>

type_synonym ustr = "nat list"

definition asc :: "string \<Rightarrow> ustr" where
  "asc s = map of_char s"

text \<open>
  The Unicode character database is not part of the repository.  The ASCII range is
  written out below; everything above it is a parameter:
  \<^item> \<open>uni_alnum\<close>: \<^verbatim>\<open>str.isalnum\<close> of a code point above 127,
  \<^item> \<open>uni_space\<close>: \<^verbatim>\<open>str.isspace\<close> of a code point above 127,
  \<^item> \<open>uni_digit\<close>: the decimal value of a code point of category Nd above 127,
  \<^item> \<open>uni_lower\<close>: \<^verbatim>\<open>str.lower\<close> of a string that is not pure ASCII.
\<close>

record ucd =
  uni_alnum :: "nat \<Rightarrow> bool"
  uni_space :: "nat \<Rightarrow> bool"
  uni_digit :: "nat \<Rightarrow> nat option"
  uni_lower :: "ustr \<Rightarrow> ustr"

definition is_alnum :: "ucd \<Rightarrow> nat \<Rightarrow> bool" where
  "is_alnum db c =
     (if c < 128 then (48 \<le> c \<and> c \<le> 57) \<or> (65 \<le> c \<and> c \<le> 90) \<or> (97 \<le> c \<and> c \<le> 122)
      else uni_alnum db c)"

text \<open>\<^verbatim>\<open>str.isspace\<close>, which is also what \<^verbatim>\<open>\s\<close> matches in a \<^verbatim>\<open>str\<close> pattern.\<close>

definition is_space :: "ucd \<Rightarrow> nat \<Rightarrow> bool" where
  "is_space db c =
     (if c < 128 then (9 \<le> c \<and> c \<le> 13) \<or> (28 \<le> c \<and> c \<le> 32) else uni_space db c)"

text \<open>\<^verbatim>\<open>\w\<close> in a \<^verbatim>\<open>str\<close> pattern: alphanumeric or underscore.\<close>

definition is_word :: "ucd \<Rightarrow> nat \<Rightarrow> bool" where
  "is_word db c = (is_alnum db c \<or> c = 95)"

text \<open>\<^verbatim>\<open>\d\<close> in a \<^verbatim>\<open>str\<close> pattern, with the value \<^verbatim>\<open>int\<close> gives the digit.\<close>

definition digit_val :: "ucd \<Rightarrow> nat \<Rightarrow> nat option" where
  "digit_val db c =
     (if c < 128 then (if 48 \<le> c \<and> c \<le> 57 then Some (c - 48) else None) else uni_digit db c)"

definition py_lower :: "ucd \<Rightarrow> ustr \<Rightarrow> ustr" where
  "py_lower db s =
     (if \<forall>c \<in> set s. c < 128
      then map (\<lambda>c. if 65 \<le> c \<and> c \<le> 90 then c + 32 else c) s
      else uni_lower db s)"

text \<open>\<^verbatim>\<open>s.strip()\<close>: whitespace removed at both ends.\<close>

definition py_strip :: "ucd \<Rightarrow> ustr \<Rightarrow> ustr" where
  "py_strip db s = rev (dropWhile (is_space db) (rev (dropWhile (is_space db) s)))"

text \<open>
  \<^verbatim>\<open>s[:k]\<close> for an integer \<open>k\<close>: a negative \<open>k\<close> counts from the end, and a slice never
  raises.
\<close>

definition py_take :: "int \<Rightarrow> 'a list \<Rightarrow> 'a list" where
  "py_take k s = (if 0 \<le> k then take (nat k) s else take (nat (int (length s) + k)) s)"

text \<open>
  \<^verbatim>\<open>s.replace(old, new)\<close>: the occurrences of \<open>old\<close> are found from left to right and do
  not overlap; an empty \<open>old\<close> matches before every character and at the end.
\<close>

fun replace_ne :: "ustr \<Rightarrow> ustr \<Rightarrow> ustr \<Rightarrow> ustr" where
  "replace_ne [] new s = s"
| "replace_ne (a # old) new [] = []"
| "replace_ne (a # old) new (c # cs) =
     (if c = a \<and> prefix old cs
      then new @ replace_ne (a # old) new (drop (length old) cs)
      else c # replace_ne (a # old) new cs)"

definition py_replace :: "ustr \<Rightarrow> ustr \<Rightarrow> ustr \<Rightarrow> ustr" where
  "py_replace old new s =
     (if old = [] then new @ concat (map (\<lambda>c. c # new) s) else replace_ne old new s)"

text \<open>\<^verbatim>\<open>sep.join(xs)\<close> and \<^verbatim>\<open>s.split(d)\<close> for a one-character separator \<open>d\<close>.\<close>

fun py_join :: "ustr \<Rightarrow> ustr list \<Rightarrow> ustr" where
  "py_join sep [] = []"
| "py_join sep [x] = x"
| "py_join sep (x # y # ys) = x @ sep @ py_join sep (y # ys)"

fun py_split :: "nat \<Rightarrow> ustr \<Rightarrow> ustr list" where
  "py_split d [] = [[]]"
| "py_split d (c # cs) =
     (if c = d then [] # py_split d cs
      else (case py_split d cs of [] \<Rightarrow> [[c]] | w # ws \<Rightarrow> (c # w) # ws))"

section \<open>The regular expressions of the Normalizer\<close>

text \<open>
  \<^verbatim>\<open>re.escape\<close> (Python 3.7 and later) puts a backslash before each of the characters
  \<^verbatim>\<open>()[]{}?*+-|^$.&~#\<close>, the backslash (code point 92), space, tab, newline, carriage
  return, vertical tab and form feed, and leaves every other character alone.
\<close>

definition re_special :: "nat \<Rightarrow> bool" where
  "re_special c = (c \<in> set (asc ''()[]{}?*+-|^$.&~# '') \<or> c = 92 \<or> (9 \<le> c \<and> c \<le> 13))"

definition re_escape :: "ustr \<Rightarrow> ustr" where
  "re_escape s = concat (map (\<lambda>c. if re_special c then [92, c] else [c]) s)"

text \<open>
  The wildcard branch of \<^verbatim>\<open>_clean_filename\<close>:
  \<^verbatim>\<open>
  regex_pattern = pattern.replace('*', '.*?')
  regex_pattern = re.escape(regex_pattern).replace(r'\.\*\?', '.*?')
  \<close>
  The raw string searched for is the six code points 92 46 92 42 92 63.
\<close>

definition regex_of_pattern :: "ustr \<Rightarrow> ustr" where
  "regex_of_pattern pattern =
     py_replace [92, 46, 92, 42, 92, 63] (asc ''.*?'')
       (re_escape (py_replace (asc ''*'') (asc ''.*?'') pattern))"

text \<open>The intermediate string of that branch, before the wildcards are restored.\<close>

definition esc_wild :: "ustr \<Rightarrow> ustr" where
  "esc_wild p = re_escape (replace_ne [42] [46, 42, 63] p)"

text \<open>
  The construction in the words of the specification: split the pattern on the wildcard,
  escape each literal segment, join the segments with the non-greedy match-any rule.
\<close>

definition spec_regex_of_pattern :: "ustr \<Rightarrow> ustr" where
  "spec_regex_of_pattern pattern = py_join (asc ''.*?'') (map re_escape (py_split 42 pattern))"

text \<open>
  The regular expressions that \<open>regex_of_pattern\<close> can produce are sequences of literal
  characters (a character that \<^verbatim>\<open>re.escape\<close> leaves alone, or a backslash and a special
  character) and of the lazy wildcard \<^verbatim>\<open>.*?\<close>.  \<open>re_parse\<close> reads such a string; it gives
  \<open>None\<close> on any other string, which is outside this model of \<^verbatim>\<open>re\<close>.
\<close>

datatype tok = Lit nat | AnyLazy

fun re_parse :: "ustr \<Rightarrow> tok list option" where
  "re_parse [] = Some []"
| "re_parse (c # cs) =
     (if c = 92 then
        (case cs of
           [] \<Rightarrow> None
         | d # ds \<Rightarrow> if re_special d then map_option ((#) (Lit d)) (re_parse ds) else None)
      else if c = 46 then
        (case cs of
           a # b # ds \<Rightarrow> if a = 42 \<and> b = 63 then map_option ((#) AnyLazy) (re_parse ds) else None
         | _ \<Rightarrow> None)
      else if re_special c then None
      else map_option ((#) (Lit c)) (re_parse cs))"

text \<open>
  The backtracking matcher of \<^verbatim>\<open>re\<close> on these expressions, anchored at the start of \<open>s\<close>;
  the result is the text left after the match.  A lazy wildcard first tries the rest of
  the expression and takes one more character only when that fails; \<^verbatim>\<open>.\<close> matches every
  character but the newline (code point 10).  With \<open>adv\<close> set (the matcher's
  \<^verbatim>\<open>must_advance\<close>), a match that consumed nothing of the \<open>n\<close> characters it started with
  is rejected at the end of the expression, and the matcher backtracks.
\<close>

fun re_match :: "bool \<Rightarrow> nat \<Rightarrow> tok list \<Rightarrow> ustr \<Rightarrow> ustr option" where
  "re_match adv n [] s = (if adv \<and> length s = n then None else Some s)"
| "re_match adv n (Lit c # ts) s =
     (case s of [] \<Rightarrow> None | x # xs \<Rightarrow> if x = c then re_match adv n ts xs else None)"
| "re_match adv n (AnyLazy # ts) s =
     (case re_match adv n ts s of
        Some r \<Rightarrow> Some r
      | None \<Rightarrow>
          (case s of
             [] \<Rightarrow> None
           | x # xs \<Rightarrow> if x = 10 then None else re_match adv n (AnyLazy # ts) xs))"

declare re_match.simps(3) [simp del]

lemma re_match_length:
  "re_match adv n ts s = Some r \<Longrightarrow> length r \<le> length s \<and> (adv \<longrightarrow> length r \<noteq> n)"
proof (induction adv n ts s rule: re_match.induct)
  case (1 adv n s)
  then show ?case by (auto split: if_splits)
next
  case (2 adv n c ts s)
  then show ?case by (cases s) (auto split: if_splits)
next
  case (3 adv n ts s)
  show ?case
  proof (cases "re_match adv n ts s")
    case (Some r')
    with 3 show ?thesis by (simp add: re_match.simps(3))
  next
    case None
    show ?thesis
    proof (cases s)
      case Nil
      with None "3.prems" show ?thesis by (simp add: re_match.simps(3))
    next
      case (Cons x xs)
      have step: "re_match adv n (AnyLazy # ts) s =
          (if x = 10 then None else re_match adv n (AnyLazy # ts) xs)"
        using None unfolding Cons by (subst re_match.simps(3)) simp
      with "3.prems" have x: "x \<noteq> 10" and r: "re_match adv n (AnyLazy # ts) xs = Some r"
        by (simp_all split: if_splits)
      from "3.IH"(2) [OF None Cons x r] Cons show ?thesis by simp
    qed
  qed
qed

text \<open>
  \<^verbatim>\<open>re.sub(regex, '', s)\<close>: the search goes from left to right; a character at which no
  match starts is copied, a match is deleted and the search goes on where it ended.
  After an empty match the next match attempt at the same place must consume something
  (\<^verbatim>\<open>must_advance\<close>); since Python 3.7 an empty match right after a non-empty one counts.
\<close>

function re_sub_from :: "tok list \<Rightarrow> bool \<Rightarrow> ustr \<Rightarrow> ustr" where
  "re_sub_from ts adv s =
     (case re_match adv (length s) ts s of
        Some r \<Rightarrow> re_sub_from ts (length r = length s) r
      | None \<Rightarrow> (case s of [] \<Rightarrow> [] | x # xs \<Rightarrow> x # re_sub_from ts False xs))"
  by pat_completeness auto
termination
proof (relation "measures [\<lambda>(ts, adv, s). length s, \<lambda>(ts, adv, s). if adv then 0 else 1]")
  show "wf (measures [\<lambda>(ts, adv, s). length s, \<lambda>(ts, adv, s). if adv then 0 else (1::nat)])"
    by simp
next
  fix ts :: "tok list" and adv :: bool and s r :: ustr
  assume "re_match adv (length s) ts s = Some r"
  from re_match_length [OF this]
  show "((ts, length r = length s, r), (ts, adv, s))
          \<in> measures [\<lambda>(ts, adv, s). length s, \<lambda>(ts, adv, s). if adv then 0 else (1::nat)]"
    by auto
next
  fix ts :: "tok list" and adv :: bool and s :: ustr and x :: nat and xs :: ustr
  assume "s = x # xs"
  then show "((ts, False, xs), (ts, adv, s))
          \<in> measures [\<lambda>(ts, adv, s). length s, \<lambda>(ts, adv, s). if adv then 0 else (1::nat)]"
    by simp
qed

declare re_sub_from.simps [simp del]

definition re_sub :: "ustr \<Rightarrow> ustr \<Rightarrow> ustr option" where
  "re_sub regex s = map_option (\<lambda>ts. re_sub_from ts False s) (re_parse regex)"

section \<open>The Metadata Normalizer: \<^verbatim>\<open>video_preprocessor.py\<close>\<close>

datatype error =
    KeyError
  | ValueError
  | FileNotFoundError
  | IsADirectoryError
  | NotADirectoryError
  | ServiceError
  | PlatformError
  | OSError
  | TypeError
  | SystemExit
  | RegexNotModelled

text \<open>
  The configuration is the dictionary loaded from \<^verbatim>\<open>config.yml\<close>; a key may be missing.
  \<^verbatim>\<open>remove_patterns\<close> and \<^verbatim>\<open>video_directory\<close> are read with \<^verbatim>\<open>config[...]\<close> (a missing
  key raises), the other two with \<^verbatim>\<open>config.get\<close> and a default.
\<close>

record config =
  video_directory :: "ustr option"
  remove_patterns :: "ustr list option"
  translate_to_chinese :: "bool option"
  max_filename_length :: "int option"

text \<open>
  The text service is outside the repository: a call either raises or returns the content
  of the first choice of the response.
\<close>

record services =
  translate_api :: "ustr \<Rightarrow> error + ustr"
  describe_api :: "ustr \<Rightarrow> error + ustr"

definition translate_text :: "ucd \<Rightarrow> services \<Rightarrow> ustr \<Rightarrow> ustr" where
  "translate_text db sv text =
     (case translate_api sv text of Inr content \<Rightarrow> py_strip db content | Inl e \<Rightarrow> text)"

text \<open>
  The fallback prefix of \<^verbatim>\<open>_get_video_description\<close>: six Chinese characters ("cannot
  generate description"), a colon and a space, written as code points.
\<close>

definition fallback_prefix :: ustr where
  "fallback_prefix = [26080, 27861, 29983, 25104, 25551, 36848, 58, 32]"

definition get_video_description :: "ucd \<Rightarrow> services \<Rightarrow> ustr \<Rightarrow> ustr" where
  "get_video_description db sv video_name =
     (case describe_api sv video_name of
        Inr content \<Rightarrow> py_strip db content
      | Inl e \<Rightarrow> fallback_prefix @ video_name)"

text \<open>The loop of \<^verbatim>\<open>_clean_filename\<close> over the remove-patterns.\<close>

fun remove_all :: "ustr list \<Rightarrow> ustr \<Rightarrow> error + ustr" where
  "remove_all [] name = Inr name"
| "remove_all (pattern # ps) name =
     (if 42 \<in> set pattern then
        (case re_sub (regex_of_pattern pattern) name of
           None \<Rightarrow> Inl RegexNotModelled
         | Some name' \<Rightarrow> remove_all ps name')
      else remove_all ps (py_replace pattern [] name))"

text \<open>\<^verbatim>\<open>re.sub(r'[^\w\s\-\.]', '', name)\<close> keeps exactly these characters.\<close>

definition keep_char :: "ucd \<Rightarrow> nat \<Rightarrow> bool" where
  "keep_char db c = (is_word db c \<or> is_space db c \<or> c = 45 \<or> c = 46)"

text \<open>\<^verbatim>\<open>self.config.get('max_filename_length', 100)\<close>\<close>

definition max_length :: "config \<Rightarrow> int" where
  "max_length cfg = (case max_filename_length cfg of None \<Rightarrow> 100 | Some m \<Rightarrow> m)"

definition truncate_name :: "config \<Rightarrow> ustr \<Rightarrow> ustr" where
  "truncate_name cfg name =
     (if int (length name) > max_length cfg then py_take (max_length cfg) name else name)"

text \<open>
  \<^verbatim>\<open>_clean_filename\<close> up to and including the removal of special characters (lines 93 to
  112): pattern removal, optional translation, character filter.
\<close>

definition special_stripped :: "ucd \<Rightarrow> services \<Rightarrow> config \<Rightarrow> ustr \<Rightarrow> error + ustr" where
  "special_stripped db sv cfg filename =
     (case remove_patterns cfg of
        None \<Rightarrow> Inl KeyError
      | Some ps \<Rightarrow>
          (case remove_all ps filename of
             Inl e \<Rightarrow> Inl e
           | Inr name \<Rightarrow>
               Inr (filter (keep_char db)
                      (if translate_to_chinese cfg = Some True
                       then translate_text db sv name else name))))"

text \<open>The whole of \<^verbatim>\<open>_clean_filename\<close>: then the length limit, then \<^verbatim>\<open>strip()\<close>.\<close>

definition clean_filename :: "ucd \<Rightarrow> services \<Rightarrow> config \<Rightarrow> ustr \<Rightarrow> error + ustr" where
  "clean_filename db sv cfg filename =
     (case special_stripped db sv cfg filename of
        Inl e \<Rightarrow> Inl e
      | Inr name \<Rightarrow> Inr (py_strip db (truncate_name cfg name)))"


section \<open>Files and directories\<close>

text \<open>
  A file-system node: a file with its text, or a directory with its entries in the order
  in which the operating system lists them.
\<close>

datatype node = File ustr | Dir "(ustr \<times> node) list"

text \<open>
  What the code needs to know about the operating system: whether path matching is
  case-sensitive (POSIX) or not (Windows), and which names it refuses to create (too long,
  no permission).
\<close>

record os =
  case_sensitive :: bool
  os_fault :: "ustr \<Rightarrow> error option"

text \<open>\<^verbatim>\<open>s.rfind(c)\<close>: the last index of \<open>c\<close>, or \<open>-1\<close>.\<close>

definition py_rfind :: "nat \<Rightarrow> ustr \<Rightarrow> int" where
  "py_rfind c s =
     (if c \<in> set s then int (length s) - 1 - int (length (takeWhile (\<lambda>x. x \<noteq> c) (rev s)))
      else - 1)"

text \<open>
  \<^verbatim>\<open>PurePath.suffix\<close> and \<^verbatim>\<open>PurePath.stem\<close> of a final path component: the name is cut at
  its last dot unless that dot is the first or the last character.
\<close>

definition path_suffix :: "ustr \<Rightarrow> ustr" where
  "path_suffix name =
     (let i = py_rfind 46 name
      in if 0 < i \<and> i < int (length name) - 1 then drop (nat i) name else [])"

definition path_stem :: "ustr \<Rightarrow> ustr" where
  "path_stem name =
     (let i = py_rfind 46 name
      in if 0 < i \<and> i < int (length name) - 1 then take (nat i) name else name)"

text \<open>
  \<^verbatim>\<open>Path(p)\<close> on POSIX keeps the root of the string (one slash, or exactly two) and its
  components, without the empty ones and the single dots; \<^verbatim>\<open>str\<close> joins them again, and
  writes a path with neither root nor components as a dot.
\<close>

definition path_root :: "ustr \<Rightarrow> ustr" where
  "path_root p =
     (if take 2 p = [47, 47] \<and> take 3 p \<noteq> [47, 47, 47] then [47, 47]
      else if take 1 p = [47] then [47] else [])"

definition path_parts :: "ustr \<Rightarrow> ustr list" where
  "path_parts p = filter (\<lambda>c. c \<noteq> [] \<and> c \<noteq> [46]) (py_split 47 p)"

definition path_str :: "ustr \<Rightarrow> ustr" where
  "path_str p =
     (if path_root p = [] \<and> path_parts p = [] then [46]
      else path_root p @ py_join [47] (path_parts p))"

text \<open>\<^verbatim>\<open>str(Path(p) / r)\<close> for a relative \<open>r\<close> that a glob yields.\<close>

definition path_child :: "ustr \<Rightarrow> ustr \<Rightarrow> ustr" where
  "path_child p r = path_root p @ py_join [47] (path_parts p @ [r])"

text \<open>\<^verbatim>\<open>str(Path(p).parent)\<close>: the last component dropped, if there is one.\<close>

definition path_parent :: "ustr \<Rightarrow> ustr" where
  "path_parent p =
     (if path_root p = [] \<and> butlast (path_parts p) = [] then [46]
      else path_root p @ py_join [47] (butlast (path_parts p)))"

text \<open>\<^verbatim>\<open>Path(p).name\<close>: the last component, or the empty string.\<close>

definition path_name :: "ustr \<Rightarrow> ustr" where
  "path_name p = (case path_parts p of [] \<Rightarrow> [] | c # cs \<Rightarrow> last (c # cs))"

text \<open>
  A name against the glob pattern \<^verbatim>\<open>*<ext>\<close> for a lower-case ASCII \<open>ext\<close>: the name ends
  with \<open>ext\<close>; where matching ignores case, the lower-cased name does.  A leading dot of
  the name is matched by \<^verbatim>\<open>*\<close> like any other character.
\<close>

definition glob_match :: "os \<Rightarrow> ucd \<Rightarrow> ustr \<Rightarrow> ustr \<Rightarrow> bool" where
  "glob_match sys db ext name =
     (if case_sensitive sys then suffix ext name else suffix ext (py_lower db name))"

text \<open>Equality of two paths in the same directory, by their final components.\<close>

definition same_name :: "os \<Rightarrow> ucd \<Rightarrow> ustr \<Rightarrow> ustr \<Rightarrow> bool" where
  "same_name sys db a b = (if case_sensitive sys then a = b else py_lower db a = py_lower db b)"

text \<open>
  \<^verbatim>\<open>Path.rename\<close> inside one directory, with the POSIX rules: the source must exist; an
  existing target is replaced, except that a directory is not replaced by a file, a file
  not by a directory, and a non-empty directory by nothing.
\<close>

definition rename_entry ::
  "os \<Rightarrow> (ustr \<times> node) list \<Rightarrow> ustr \<Rightarrow> ustr \<Rightarrow> error + (ustr \<times> node) list" where
  "rename_entry sys d src dst =
     (case map_of d src of
        None \<Rightarrow> Inl FileNotFoundError
      | Some n \<Rightarrow>
          (case os_fault sys dst of
             Some e \<Rightarrow> Inl e
           | None \<Rightarrow>
               let moved = (dst, n) # filter (\<lambda>e. fst e \<noteq> src \<and> fst e \<noteq> dst) d
               in (case (map_of d dst, n) of
                     (None, _) \<Rightarrow> Inr moved
                   | (Some (File _), File _) \<Rightarrow> Inr moved
                   | (Some (File _), Dir _) \<Rightarrow> Inl NotADirectoryError
                   | (Some (Dir _), File _) \<Rightarrow> Inl IsADirectoryError
                   | (Some (Dir es), Dir _) \<Rightarrow> if es = [] then Inr moved else Inl OSError)))"

text \<open>\<^verbatim>\<open>open(path, 'w')\<close> and \<^verbatim>\<open>f.write(text)\<close> inside one directory.\<close>

definition write_entry ::
  "os \<Rightarrow> (ustr \<times> node) list \<Rightarrow> ustr \<Rightarrow> ustr \<Rightarrow> error + (ustr \<times> node) list" where
  "write_entry sys d name text =
     (case os_fault sys name of
        Some e \<Rightarrow> Inl e
      | None \<Rightarrow>
          (case map_of d name of
             Some (Dir _) \<Rightarrow> Inl IsADirectoryError
           | _ \<Rightarrow> Inr ((name, File text) # filter (\<lambda>e. fst e \<noteq> name) d)))"

section \<open>\<^verbatim>\<open>process_directory\<close>\<close>

text \<open>
  The effects of the per-file loop, in order: a rename, a sidecar written, or the error
  logged by the \<^verbatim>\<open>except\<close> clause for that file.
\<close>

datatype effect =
    Renamed ustr ustr
  | Wrote ustr ustr
  | Failed ustr error

definition mp4_ext :: ustr where "mp4_ext = asc ''.mp4''"

definition txt_ext :: ustr where "txt_ext = asc ''.txt''"

text \<open>
  The body of the loop for one entry \<open>video_file\<close> of the directory, with its
  \<^verbatim>\<open>try\<close>/\<^verbatim>\<open>except Exception\<close>: whatever raises, the error is logged and the function
  returns, keeping the effects that had already happened.
\<close>

definition process_file ::
  "ucd \<Rightarrow> services \<Rightarrow> os \<Rightarrow> config \<Rightarrow> (ustr \<times> node) list \<times> effect list \<Rightarrow> ustr
     \<Rightarrow> (ustr \<times> node) list \<times> effect list" where
  "process_file db sv sys cfg st video_file =
     (let d = fst st; log = snd st; original_name = path_stem video_file
      in case clean_filename db sv cfg original_name of
           Inl e \<Rightarrow> (d, log @ [Failed video_file e])
         | Inr new_name \<Rightarrow>
             (case (if \<not> same_name sys db video_file (new_name @ mp4_ext)
                    then map_sum id (\<lambda>d'. (d', [Renamed video_file (new_name @ mp4_ext)]))
                           (rename_entry sys d video_file (new_name @ mp4_ext))
                    else Inr (d, [])) of
                Inl e \<Rightarrow> (d, log @ [Failed video_file e])
              | Inr (d1, renamed) \<Rightarrow>
                  let description = get_video_description db sv new_name
                  in (case write_entry sys d1 (new_name @ txt_ext) description of
                        Inl e \<Rightarrow> (d1, log @ renamed @ [Failed video_file e])
                      | Inr d2 \<Rightarrow>
                          (d2, log @ renamed @ [Wrote (new_name @ txt_ext) description]))))"

text \<open>
  \<^verbatim>\<open>video_dir.glob("*.mp4")\<close> lists the directory once, before the first file is
  processed, and yields the entries directly under it whose name matches.
\<close>

definition glob_mp4 :: "os \<Rightarrow> ucd \<Rightarrow> (ustr \<times> node) list \<Rightarrow> ustr list" where
  "glob_mp4 sys db d = filter (glob_match sys db mp4_ext) (map fst d)"

definition process_files ::
  "ucd \<Rightarrow> services \<Rightarrow> os \<Rightarrow> config \<Rightarrow> (ustr \<times> node) list \<times> effect list \<Rightarrow> ustr list
     \<Rightarrow> (ustr \<times> node) list \<times> effect list" where
  "process_files db sv sys cfg st fs = foldl (process_file db sv sys cfg) st fs"

text \<open>
  \<^verbatim>\<open>process_directory\<close> on the node found at the configured path (\<open>None\<close> when nothing
  is there).  A missing \<^verbatim>\<open>video_directory\<close> key raises before the loop; a missing
  directory is logged and nothing is done; a path that is a file has no entries.
\<close>

definition process_directory ::
  "ucd \<Rightarrow> services \<Rightarrow> os \<Rightarrow> config \<Rightarrow> node option \<Rightarrow> error + node option \<times> effect list" where
  "process_directory db sv sys cfg video_dir =
     (case video_directory cfg of
        None \<Rightarrow> Inl KeyError
      | Some path \<Rightarrow>
          (case video_dir of
             None \<Rightarrow> Inr (None, [])
           | Some (File text) \<Rightarrow> Inr (Some (File text), [])
           | Some (Dir d) \<Rightarrow>
               (case process_files db sv sys cfg (d, []) (glob_mp4 sys db d) of
                  (d', log) \<Rightarrow> Inr (Some (Dir d'), log))))"

text \<open>
  Reading the log.  An outcome is the end of one file's processing: its sidecar written, or
  its failure logged.  \<open>effect_of f e\<close> says that the effect \<open>e\<close> is one that processing the
  entry \<open>f\<close> can have: the rename of \<open>f\<close> to its cleaned name, the sidecar of that cleaned
  name with the description generated for it, or the failure of \<open>f\<close>.
\<close>

fun is_outcome :: "effect \<Rightarrow> bool" where
  "is_outcome (Renamed src dst) = False"
| "is_outcome (Wrote p text) = True"
| "is_outcome (Failed f e) = True"

definition effect_of :: "ucd \<Rightarrow> services \<Rightarrow> config \<Rightarrow> ustr \<Rightarrow> effect \<Rightarrow> bool" where
  "effect_of db sv cfg f e =
     (case (e, clean_filename db sv cfg (path_stem f)) of
        (Failed g err, _) \<Rightarrow> g = f
      | (Renamed src dst, Inr new_name) \<Rightarrow> src = f \<and> dst = new_name @ mp4_ext
      | (Wrote p text, Inr new_name) \<Rightarrow>
          p = new_name @ txt_ext \<and> text = get_video_description db sv new_name
      | _ \<Rightarrow> False)"

section \<open>The Router: \<^verbatim>\<open>cli_main.py\<close>\<close>

subsection \<open>\<^verbatim>\<open>parse_schedule\<close>\<close>

datatype datetime = DateTime nat nat nat nat nat

text \<open>The values the publish date of a job can take: an integer, \<^verbatim>\<open>None\<close>, a datetime.\<close>

datatype pyval = IntV int | NoneV | DateTimeV datetime

text \<open>
  \<^verbatim>\<open>datetime.strptime(s, '%Y-%m-%d %H:%M')\<close> is library code.  It turns the format into the
  regular expression
  \<^verbatim>\<open>(?P<Y>\d\d\d\d)-(?P<m>1[0-2]|0[1-9]|[1-9])-(?P<d>3[0-1]|[1-2]\d|0[1-9]|[1-9]| [1-9])\s+(?P<H>2[0-3]|[0-1]\d|\d):(?P<M>[0-5]\d|\d)\<close>,
  matches it at the start of the string with the usual backtracking, raises
  \<^verbatim>\<open>ValueError\<close> when there is no match or text is left after the match, converts the
  groups with \<^verbatim>\<open>int\<close>, and raises \<^verbatim>\<open>ValueError\<close> when they are no date of the calendar.
  Each piece below gives its possible matches in the order in which the matcher tries
  them: the value read and the text left.
\<close>

definition re_digit :: "ucd \<Rightarrow> ustr \<Rightarrow> (nat \<times> ustr) list" where
  "re_digit db s =
     (case s of
        [] \<Rightarrow> []
      | c # r \<Rightarrow> (case digit_val db c of None \<Rightarrow> [] | Some v \<Rightarrow> [(v, r)]))"

definition re_range :: "nat \<Rightarrow> nat \<Rightarrow> ustr \<Rightarrow> (nat \<times> ustr) list" where
  "re_range a b s =
     (case s of [] \<Rightarrow> [] | c # r \<Rightarrow> if 48 + a \<le> c \<and> c \<le> 48 + b then [(c - 48, r)] else [])"

definition re_lit :: "nat \<Rightarrow> ustr \<Rightarrow> ustr list" where
  "re_lit c s = (case s of [] \<Rightarrow> [] | x # r \<Rightarrow> if x = c then [r] else [])"

definition two ::
  "(ustr \<Rightarrow> (nat \<times> ustr) list) \<Rightarrow> (ustr \<Rightarrow> (nat \<times> ustr) list) \<Rightarrow> ustr \<Rightarrow> (nat \<times> ustr) list" where
  "two p q s = concat (map (\<lambda>(a, r). map (\<lambda>(b, r'). (10 * a + b, r')) (q r)) (p s))"

definition field_Y :: "ucd \<Rightarrow> ustr \<Rightarrow> (nat \<times> ustr) list" where
  "field_Y db s =
     concat (map (\<lambda>(ab, r). map (\<lambda>(cd, r'). (100 * ab + cd, r'))
                                (two (re_digit db) (re_digit db) r))
               (two (re_digit db) (re_digit db) s))"

definition field_m :: "ustr \<Rightarrow> (nat \<times> ustr) list" where
  "field_m s =
     two (re_range 1 1) (re_range 0 2) s @ two (re_range 0 0) (re_range 1 9) s @ re_range 1 9 s"

definition field_d :: "ucd \<Rightarrow> ustr \<Rightarrow> (nat \<times> ustr) list" where
  "field_d db s =
     two (re_range 3 3) (re_range 0 1) s @ two (re_range 1 2) (re_digit db) s
     @ two (re_range 0 0) (re_range 1 9) s @ re_range 1 9 s
     @ concat (map (re_range 1 9) (re_lit 32 s))"

definition field_H :: "ucd \<Rightarrow> ustr \<Rightarrow> (nat \<times> ustr) list" where
  "field_H db s =
     two (re_range 2 2) (re_range 0 3) s @ two (re_range 0 1) (re_digit db) s @ re_digit db s"

definition field_M :: "ucd \<Rightarrow> ustr \<Rightarrow> (nat \<times> ustr) list" where
  "field_M db s = two (re_range 0 5) (re_digit db) s @ re_digit db s"

text \<open>\<^verbatim>\<open>\s+\<close>: one or more whitespace characters, the longest run first.\<close>

definition re_spaces :: "ucd \<Rightarrow> ustr \<Rightarrow> ustr list" where
  "re_spaces db s =
     map (\<lambda>k. drop k s) (rev [1 ..< Suc (length (takeWhile (is_space db) s))])"

definition strptime_matches :: "ucd \<Rightarrow> ustr \<Rightarrow> (nat \<times> nat \<times> nat \<times> nat \<times> nat \<times> ustr) list" where
  "strptime_matches db s =
     concat (map (\<lambda>(y, r0). concat (map (\<lambda>r1.
     concat (map (\<lambda>(m, r2). concat (map (\<lambda>r3.
     concat (map (\<lambda>(d, r4). concat (map (\<lambda>r5.
     concat (map (\<lambda>(H, r6). concat (map (\<lambda>r7.
     map (\<lambda>(M, r8). (y, m, d, H, M, r8)) (field_M db r7))
       (re_lit 58 r6))) (field_H db r5)))
       (re_spaces db r4))) (field_d db r3)))
       (re_lit 45 r2))) (field_m r1)))
       (re_lit 45 r0))) (field_Y db s))"

definition days_in_month :: "nat \<Rightarrow> nat \<Rightarrow> nat" where
  "days_in_month y m =
     (if m = 2 then (if y mod 4 = 0 \<and> (y mod 100 \<noteq> 0 \<or> y mod 400 = 0) then 29 else 28)
      else if m = 4 \<or> m = 6 \<or> m = 9 \<or> m = 11 then 30 else 31)"

definition strptime :: "ucd \<Rightarrow> ustr \<Rightarrow> error + datetime" where
  "strptime db s =
     (case strptime_matches db s of
        [] \<Rightarrow> Inl ValueError
      | (y, m, d, H, M, rest) # others \<Rightarrow>
          if rest \<noteq> [] then Inl ValueError
          else if y < 1 \<or> days_in_month y m < d then Inl ValueError
          else Inr (DateTime y m d H M))"

text \<open>\<^verbatim>\<open>parse_schedule\<close>: \<^verbatim>\<open>None\<close> and the empty string are both falsy.\<close>

definition parse_schedule :: "ucd \<Rightarrow> ustr option \<Rightarrow> error + pyval" where
  "parse_schedule db schedule_raw =
     (case schedule_raw of
        None \<Rightarrow> Inr NoneV
      | Some s \<Rightarrow> if s = [] then Inr NoneV else map_sum id DateTimeV (strptime db s))"

text \<open>
  The fixed format in the words of the specification, \<^verbatim>\<open>YYYY-MM-DD HH:MM\<close>: sixteen
  characters, ASCII digits with two hyphens, one space and one colon in their places.
\<close>

definition strict_format :: "ustr \<Rightarrow> bool" where
  "strict_format s =
     (length s = 16
      \<and> list_all (\<lambda>i. 48 \<le> s ! i \<and> s ! i \<le> 57) [0, 1, 2, 3, 5, 6, 8, 9, 11, 12, 14, 15]
      \<and> s ! 4 = 45 \<and> s ! 7 = 45 \<and> s ! 10 = 32 \<and> s ! 13 = 58)"

text \<open>The string that writes a year, month, day, hour and minute in the fixed format.\<close>

definition fixed_string :: "nat \<Rightarrow> nat \<Rightarrow> nat \<Rightarrow> nat \<Rightarrow> nat \<Rightarrow> ustr" where
  "fixed_string y m d H M =
     [48 + y div 1000 mod 10, 48 + y div 100 mod 10, 48 + y div 10 mod 10, 48 + y mod 10, 45,
      48 + m div 10, 48 + m mod 10, 45, 48 + d div 10, 48 + d mod 10, 32,
      48 + H div 10, 48 + H mod 10, 58, 48 + M div 10, 48 + M mod 10]"

subsection \<open>\<^verbatim>\<open>get_video_files\<close>\<close>

definition video_extensions :: "ustr list" where
  "video_extensions = [asc ''.mp4'', asc ''.mov'', asc ''.avi'', asc ''.mkv'', asc ''.wmv'', asc ''.flv'']"

text \<open>
  \<^verbatim>\<open>path.glob('**/*<ext>')\<close>: the entries of the directory and of all directories below it
  whose name matches, as paths relative to the directory.  Directories are matched like
  files.  The order does not matter, the caller sorts.
\<close>

fun rglob :: "os \<Rightarrow> ucd \<Rightarrow> ustr \<Rightarrow> node \<Rightarrow> ustr list" where
  "rglob sys db ext (File c) = []"
| "rglob sys db ext (Dir es) =
     concat (map (\<lambda>e. (if glob_match sys db ext (fst e) then [fst e] else [])
                        @ map (\<lambda>r. fst e @ [47] @ r) (rglob sys db ext (snd e))) es)"

text \<open>
  \<^verbatim>\<open>get_video_files\<close>, given the file system: \<open>fs\<close> tells what is found at a path.  The
  function works on \<^verbatim>\<open>Path(path)\<close>, so it asks for and returns normalised path strings.
  On a path where nothing is, \<^verbatim>\<open>is_file\<close> is false and the globs are empty.
\<close>

definition get_video_files :: "os \<Rightarrow> ucd \<Rightarrow> (ustr \<Rightarrow> node option) \<Rightarrow> ustr \<Rightarrow> ustr list" where
  "get_video_files sys db fs path =
     (case fs (path_str path) of
        Some (File c) \<Rightarrow>
          if py_lower db (path_suffix (path_name path)) \<in> set video_extensions
          then [path_str path] else []
      | Some (Dir es) \<Rightarrow>
          sort (concat (map (\<lambda>ext. map (path_child path) (rglob sys db ext (Dir es)))
                         video_extensions))
      | None \<Rightarrow> [])"

text \<open>
  What the specification says a directory yields: the files below it whose extension,
  lower-cased, is a video extension, sorted by path.
\<close>

fun files_below :: "node \<Rightarrow> ustr list" where
  "files_below (File c) = []"
| "files_below (Dir es) =
     concat (map (\<lambda>e. (case snd e of File c \<Rightarrow> [fst e] | Dir sub \<Rightarrow> [])
                        @ map (\<lambda>r. fst e @ [47] @ r) (files_below (snd e))) es)"

definition spec_discover :: "ucd \<Rightarrow> ustr \<Rightarrow> node \<Rightarrow> ustr list" where
  "spec_discover db path n =
     sort (map (path_child path)
             (filter (\<lambda>r. py_lower db (path_suffix (path_name r)) \<in> set video_extensions)
                (files_below n)))"

subsection \<open>\<^verbatim>\<open>main\<close>\<close>

datatype platform = Douyin | Tiktok | Tencent | Kuaishou | OtherPlatform ustr

text \<open>
  Modelled from the spec: the constants \<^verbatim>\<open>SOCIAL_MEDIA_DOUYIN\<close> and the others are imported
  from \<^verbatim>\<open>utils.base_social_media\<close>, which is not among the sources; the specification
  gives the four platform names.
\<close>

definition platform_name :: "platform \<Rightarrow> ustr" where
  "platform_name p =
     (case p of
        Douyin \<Rightarrow> asc ''douyin'' | Tiktok \<Rightarrow> asc ''tiktok'' | Tencent \<Rightarrow> asc ''tencent''
      | Kuaishou \<Rightarrow> asc ''kuaishou'' | OtherPlatform n \<Rightarrow> n)"

datatype action = Login | Upload | OtherAction

text \<open>The namespace that \<^verbatim>\<open>parser.parse_args()\<close> returns.\<close>

record args =
  platform :: platform
  account_name :: ustr
  action :: action
  files :: "ustr list option"
  directory :: "ustr option"
  publish_type :: int
  schedule :: "ustr option"

text \<open>
  An upload job as the adapter's constructor receives it: platform, title, file, tags,
  publish date, account file and, for Tencent only, the category.
\<close>

datatype job = Job platform ustr ustr "ustr list" pyval ustr "int option"

fun job_publish_date :: "job \<Rightarrow> pyval" where
  "job_publish_date (Job p title file tags publish_date account_file category) = publish_date"

datatype console = Found nat | Listed ustr | LoggingIn | Uploading ustr | Planned ustr
  | Completed ustr | WrongPlatform

text \<open>
  What \<^verbatim>\<open>main\<close> does to the outside, in order: a line printed, the directory of the account file made,
  the title and tags of a file extracted, an adapter's session set up, an upload job
  constructed, a job run.
\<close>

datatype event =
    Print console
  | Mkdir ustr
  | Extract ustr
  | Setup platform ustr bool
  | Build job
  | Run job

fun is_print :: "event \<Rightarrow> bool" where
  "is_print (Print c) = True"
| "is_print e = False"

text \<open>An adapter call: session establishment, job construction or job execution.\<close>

fun is_adapter_call :: "event \<Rightarrow> bool" where
  "is_adapter_call (Setup p f h) = True"
| "is_adapter_call (Build j) = True"
| "is_adapter_call (Run j) = True"
| "is_adapter_call e = False"

text \<open>
  The collaborators of \<^verbatim>\<open>main\<close> that are not among the sources: the file system, the base
  directory, whether making the cookie directory fails, the title extractor, the
  adapters' session set-up and job execution (each may raise), and the value of
  \<^verbatim>\<open>TencentZoneTypes.LIFESTYLE\<close>.
\<close>

record world =
  fs_lookup :: "ustr \<Rightarrow> node option"
  base_dir :: ustr
  mkdir_error :: "error option"
  title_and_hashtags :: "ustr \<Rightarrow> error + ustr \<times> ustr list"
  setup_error :: "platform \<Rightarrow> ustr \<Rightarrow> bool \<Rightarrow> error option"
  job_error :: "job \<Rightarrow> error option"
  lifestyle :: int

definition path_exists :: "world \<Rightarrow> ustr \<Rightarrow> bool" where
  "path_exists w p = (fs_lookup w p \<noteq> None)"

text \<open>Python's truth value of \<^verbatim>\<open>args.files\<close>, \<^verbatim>\<open>args.directory\<close> and \<^verbatim>\<open>args.schedule\<close>.\<close>

definition files_given :: "args \<Rightarrow> bool" where
  "files_given a = (case files a of Some (f # fs) \<Rightarrow> True | _ \<Rightarrow> False)"

definition directory_given :: "args \<Rightarrow> bool" where
  "directory_given a = (case directory a of Some (c # cs) \<Rightarrow> True | _ \<Rightarrow> False)"

definition schedule_given :: "args \<Rightarrow> bool" where
  "schedule_given a = (case schedule a of Some (c # cs) \<Rightarrow> True | _ \<Rightarrow> False)"

text \<open>
  Lines 64 to 75: the list of video files of an upload, with the lines printed on the way,
  or the error raised.
\<close>

definition resolve_files :: "os \<Rightarrow> ucd \<Rightarrow> world \<Rightarrow> args \<Rightarrow> error + event list \<times> ustr list" where
  "resolve_files sys db w a =
     (if files_given a then Inr ([], the (files a))
      else if directory_given a then
        (if \<not> path_exists w (the (directory a)) then Inl FileNotFoundError
         else let video_files = get_video_files sys db (fs_lookup w) (the (directory a))
              in if video_files = [] then Inl ValueError
                 else Inr (Print (Found (length video_files)) # map (\<lambda>v. Print (Listed v)) video_files,
                           video_files))
      else Inr ([], []))"

text \<open>
  The list that this block checks: the files given, or the files discovered in a
  directory given as a non-empty string, or nothing.  It is not always the list that is
  uploaded, see \<open>upload_files\<close> below.
\<close>

definition validated_files :: "os \<Rightarrow> ucd \<Rightarrow> world \<Rightarrow> args \<Rightarrow> ustr list" where
  "validated_files sys db w a =
     (if files_given a then the (files a)
      else if directory_given a then get_video_files sys db (fs_lookup w) (the (directory a))
      else [])"

text \<open>Lines 63 to 82, the checks of an upload: the events and the error raised, if any.\<close>

definition validate :: "os \<Rightarrow> ucd \<Rightarrow> world \<Rightarrow> args \<Rightarrow> event list \<times> error option" where
  "validate sys db w a =
     (case resolve_files sys db w a of
        Inl e \<Rightarrow> ([], Some e)
      | Inr (printed, video_files) \<Rightarrow>
          (case find (\<lambda>video_file. \<not> path_exists w video_file) video_files of
             Some missing \<Rightarrow> (printed, Some FileNotFoundError)
           | None \<Rightarrow>
               if publish_type a = 1 \<and> \<not> schedule_given a then (printed, Some SystemExit)
               else (printed, None)))"

text \<open>
  Line 84, \<^verbatim>\<open>Path(BASE_DIR / "cookies" / f"{args.platform}_{args.account_name}.json")\<close>, and
  line 85, which makes the parent directory of that path.
\<close>

definition account_file_of :: "world \<Rightarrow> args \<Rightarrow> ustr" where
  "account_file_of w a =
     path_str (base_dir w @ asc ''/cookies/'' @ platform_name (platform a) @ asc ''_''
                 @ account_name a @ asc ''.json'')"

definition account_dir :: "world \<Rightarrow> args \<Rightarrow> ustr" where
  "account_dir w a = path_parent (account_file_of w a)"

text \<open>Lines 104 to 109: the line printed and the publish date, or the error of the parser.\<close>

definition publish_step :: "ucd \<Rightarrow> args \<Rightarrow> ustr \<Rightarrow> event list \<times> (error + pyval)" where
  "publish_step db a video_file =
     (if publish_type a = 0 then ([Print (Uploading video_file)], Inr (IntV 0))
      else ([Print (Planned video_file)], parse_schedule db (schedule a)))"

text \<open>
  Lines 111 to 126: the session of the platform is set up (interactively for all but
  Douyin) and the job constructed; an unknown platform prints a line and exits.
\<close>

definition setup_and_build ::
  "world \<Rightarrow> platform \<Rightarrow> bool \<Rightarrow> job \<Rightarrow> event list \<times> (error + job)" where
  "setup_and_build w p handle j =
     (case j of Job p' title file tags publish_date account_file category \<Rightarrow>
        (case setup_error w p account_file handle of
           Some e \<Rightarrow> ([Setup p account_file handle], Inl e)
         | None \<Rightarrow> ([Setup p account_file handle, Build j], Inr j)))"

definition dispatch ::
  "world \<Rightarrow> args \<Rightarrow> ustr \<Rightarrow> ustr \<Rightarrow> ustr \<Rightarrow> ustr list \<Rightarrow> pyval \<Rightarrow> event list \<times> (error + job)" where
  "dispatch w a account_file title video_file tags publish_date =
     (case platform a of
        Douyin \<Rightarrow>
          setup_and_build w Douyin False
            (Job Douyin title video_file tags publish_date account_file None)
      | Tiktok \<Rightarrow>
          setup_and_build w Tiktok True
            (Job Tiktok title video_file tags publish_date account_file None)
      | Tencent \<Rightarrow>
          setup_and_build w Tencent True
            (Job Tencent title video_file tags publish_date account_file (Some (lifestyle w)))
      | Kuaishou \<Rightarrow>
          setup_and_build w Kuaishou True
            (Job Kuaishou title video_file tags publish_date account_file None)
      | OtherPlatform n \<Rightarrow> ([Print WrongPlatform], Inl SystemExit))"

text \<open>
  Lines 101 to 129, the loop over the video files.  Nothing is caught: the first error
  ends the loop, and the result is the events so far and that error.
\<close>

fun upload_loop :: "ucd \<Rightarrow> world \<Rightarrow> args \<Rightarrow> ustr \<Rightarrow> ustr list \<Rightarrow> event list \<times> error option" where
  "upload_loop db w a account_file [] = ([], None)"
| "upload_loop db w a account_file (video_file # rest) =
     (case title_and_hashtags w video_file of
        Inl e \<Rightarrow> ([Extract video_file], Some e)
      | Inr (title, tags) \<Rightarrow>
          (case publish_step db a video_file of
             (printed, Inl e) \<Rightarrow> (Extract video_file # printed, Some e)
           | (printed, Inr publish_date) \<Rightarrow>
               (case dispatch w a account_file title video_file tags publish_date of
                  (called, Inl e) \<Rightarrow> (Extract video_file # printed @ called, Some e)
                | (called, Inr app) \<Rightarrow>
                    (case job_error w app of
                       Some e \<Rightarrow> (Extract video_file # printed @ called @ [Run app], Some e)
                     | None \<Rightarrow>
                         (case upload_loop db w a account_file rest of
                            (later, r) \<Rightarrow>
                              (Extract video_file # printed @ called
                                 @ [Run app, Print (Completed video_file)] @ later, r))))))"

text \<open>Lines 88 to 97, the login action.\<close>

definition login :: "world \<Rightarrow> args \<Rightarrow> ustr \<Rightarrow> event list \<times> error option" where
  "login w a account_file =
     (case platform a of
        OtherPlatform n \<Rightarrow> ([Print LoggingIn], None)
      | p \<Rightarrow> ([Print LoggingIn, Setup p account_file True], setup_error w p account_file True))"

text \<open>
  Line 99: the list of the upload is computed a second time, and differently: whenever
  no files are given it is discovered in the directory argument, the empty string
  included; \<^verbatim>\<open>Path(None)\<close> raises \<^verbatim>\<open>TypeError\<close>.
\<close>

definition upload_files :: "os \<Rightarrow> ucd \<Rightarrow> world \<Rightarrow> args \<Rightarrow> error + ustr list" where
  "upload_files sys db w a =
     (if files_given a then Inr (the (files a))
      else (case directory a of
              None \<Rightarrow> Inl TypeError
            | Some dir \<Rightarrow> Inr (get_video_files sys db (fs_lookup w) dir)))"

text \<open>\<^verbatim>\<open>main\<close> after \<^verbatim>\<open>parse_args\<close>: the events in order and the error it ends with, if any.\<close>

definition main :: "os \<Rightarrow> ucd \<Rightarrow> world \<Rightarrow> args \<Rightarrow> event list \<times> error option" where
  "main sys db w a =
     (case (if action a = Upload then validate sys db w a else ([], None)) of
        (checked, Some e) \<Rightarrow> (checked, Some e)
      | (checked, None) \<Rightarrow>
          (case mkdir_error w of
             Some e \<Rightarrow> (checked @ [Mkdir (account_dir w a)], Some e)
           | None \<Rightarrow>
               (case action a of
                  Login \<Rightarrow>
                    (case login w a (account_file_of w a) of
                       (evs, r) \<Rightarrow> (checked @ Mkdir (account_dir w a) # evs, r))
                | Upload \<Rightarrow>
                    (case upload_files sys db w a of
                       Inl e \<Rightarrow> (checked @ [Mkdir (account_dir w a)], Some e)
                     | Inr video_files \<Rightarrow>
                         (case upload_loop db w a (account_file_of w a) video_files of
                            (evs, r) \<Rightarrow> (checked @ Mkdir (account_dir w a) # evs, r)))
                | OtherAction \<Rightarrow> (checked @ [Mkdir (account_dir w a)], None))))"

section \<open>Example inputs\<close>

text \<open>
  A stand-in for the Unicode database (every code point above 127 a letter, none a space
  or a digit), a text service that is down, a POSIX system that refuses no name, and a
  configuration with the bracket pattern and a limit of eight characters.
\<close>

definition ex_db :: ucd where
  "ex_db = \<lparr>uni_alnum = (\<lambda>c. True), uni_space = (\<lambda>c. False),
             uni_digit = (\<lambda>c. None), uni_lower = (\<lambda>s. s)\<rparr>"

definition ex_sv :: services where
  "ex_sv = \<lparr>translate_api = (\<lambda>t. Inl ServiceError), describe_api = (\<lambda>t. Inl ServiceError)\<rparr>"

definition ex_os :: os where
  "ex_os = \<lparr>case_sensitive = True, os_fault = (\<lambda>n. None)\<rparr>"

definition ex_cfg :: config where
  "ex_cfg = \<lparr>video_directory = Some (asc ''videos''), remove_patterns = Some [asc ''[*]''],
              translate_to_chinese = None, max_filename_length = Some 8\<rparr>"

text \<open>
  A directory with one file to clean, an upper-case \<^verbatim>\<open>.MP4\<close>, a \<^verbatim>\<open>.mov\<close> and a
  sub-directory that holds an \<^verbatim>\<open>.mp4\<close>.
\<close>

definition ex_dir :: "(ustr \<times> node) list" where
  "ex_dir = [(asc ''Song [x] Track!.mp4'', File []), (asc ''B.MP4'', File []),
             (asc ''c.mov'', File []), (asc ''sub'', Dir [(asc ''d.mp4'', File [])])]"

definition ex_dir_after :: "(ustr \<times> node) list" where
  "ex_dir_after = [(asc ''Song  Tr.txt'', File (fallback_prefix @ asc ''Song  Tr'')),
                   (asc ''Song  Tr.mp4'', File []), (asc ''B.MP4'', File []),
                   (asc ''c.mov'', File []), (asc ''sub'', Dir [(asc ''d.mp4'', File [])])]"

text \<open>
  An upload of three existing files to Douyin with the default publish type and a
  malformed schedule, in a world where the job of \<^verbatim>\<open>b.mp4\<close> fails.
\<close>

definition ex_world :: world where
  "ex_world =
     \<lparr>fs_lookup = (\<lambda>p. if p \<in> set [asc ''a.mp4'', asc ''b.mp4'', asc ''c.mp4'']
                       then Some (File []) else None),
      base_dir = asc ''/app'',
      mkdir_error = None,
      title_and_hashtags = (\<lambda>f. Inr (path_stem (path_name f), [])),
      setup_error = (\<lambda>p f h. None),
      job_error = (\<lambda>j. case j of Job p title file tags pd af cat \<Rightarrow>
                           if file = asc ''b.mp4'' then Some PlatformError else None),
      lifestyle = 1\<rparr>"

definition ex_args :: args where
  "ex_args =
     \<lparr>platform = Douyin, account_name = asc ''xiaoA'', action = Upload,
      files = Some [asc ''a.mp4'', asc ''b.mp4'', asc ''c.mp4''], directory = None,
      publish_type = 0, schedule = Some (asc ''not-a-date'')\<rparr>"

definition ex_job :: "ustr \<Rightarrow> job" where
  "ex_job name =
     Job Douyin name (name @ mp4_ext) [] (IntV 0) (asc ''/app/cookies/douyin_xiaoA.json'') None"

text \<open>A directory \<^verbatim>\<open>videos\<close> whose only file is \<^verbatim>\<open>CLIP.MP4\<close>.\<close>

definition ex_upper_dir :: node where
  "ex_upper_dir = Dir [(asc ''CLIP.MP4'', File [])]"

definition ex_upper_fs :: "ustr \<Rightarrow> node option" where
  "ex_upper_fs p =
     (if p = asc ''videos'' then Some ex_upper_dir
      else if p = asc ''videos/CLIP.MP4'' then Some (File []) else None)"

text \<open>
  An upload with \<^verbatim>\<open>-d ''\<close> from a working directory that holds \<^verbatim>\<open>x.mp4\<close>, a symbolic link
  whose target is gone: the directory lists the name, but nothing is found at the path.
\<close>

definition ex_cwd_world :: world where
  "ex_cwd_world =
     \<lparr>fs_lookup = (\<lambda>p. if p = asc ''.'' then Some (Dir [(asc ''x.mp4'', File [])]) else None),
      base_dir = asc ''/app'',
      mkdir_error = None,
      title_and_hashtags = (\<lambda>f. Inr (path_stem (path_name f), [])),
      setup_error = (\<lambda>p f h. None),
      job_error = (\<lambda>j. None),
      lifestyle = 1\<rparr>"

definition ex_cwd_args :: args where
  "ex_cwd_args =
     \<lparr>platform = Douyin, account_name = asc ''xiaoA'', action = Upload,
      files = None, directory = Some [], publish_type = 0, schedule = None\<rparr>"

section \<open>Properties of the string and regular-expression operations\<close>

lemma asc_wild: "asc ''.*?'' = [46, 42, 63]" "asc ''*'' = [42]"
  by (simp_all add: asc_def)

lemma special_wild: "re_special 46" "re_special 42" "re_special 63" "re_special 92"
  by (simp_all add: re_special_def asc_def)

lemma esc_wild_Nil: "esc_wild [] = []"
  by (simp add: esc_wild_def re_escape_def)

lemma esc_wild_star: "esc_wild (42 # p) = [92, 46, 92, 42, 92, 63] @ esc_wild p"
  by (simp add: esc_wild_def re_escape_def special_wild)

lemma esc_wild_other:
  "c \<noteq> 42 \<Longrightarrow> esc_wild (c # p) = (if re_special c then [92, c] else [c]) @ esc_wild p"
  by (simp add: esc_wild_def re_escape_def)

lemma esc_wild_head:
  "\<not> prefix [46] (esc_wild p) \<and> \<not> prefix [92, 42] (esc_wild p)"
proof (cases p)
  case Nil
  then show ?thesis by (simp add: esc_wild_Nil)
next
  case (Cons c p')
  show ?thesis
  proof (cases "c = 42")
    case True
    with Cons show ?thesis by (simp add: esc_wild_star)
  next
    case False
    with Cons show ?thesis using special_wild by (auto simp: esc_wild_other)
  qed
qed

lemma py_split_nonempty: "py_split d s \<noteq> []"
  by (induction s) (auto split: list.splits)

lemma py_join_append_head: "py_join sep ((a @ x) # xs) = a @ py_join sep (x # xs)"
  by (cases xs) simp_all

lemma re_escape_Cons: "re_escape (c # s) = (if re_special c then [92, c] else [c]) @ re_escape s"
  by (simp add: re_escape_def)

lemma spec_star: "spec_regex_of_pattern (42 # p) = [46, 42, 63] @ spec_regex_of_pattern p"
proof -
  obtain w ws where "py_split 42 p = w # ws"
    using py_split_nonempty [of 42 p] by (cases "py_split 42 p") auto
  then show ?thesis
    by (simp add: spec_regex_of_pattern_def asc_wild re_escape_def)
qed

lemma spec_other:
  assumes "c \<noteq> 42"
  shows "spec_regex_of_pattern (c # p) = (if re_special c then [92, c] else [c]) @ spec_regex_of_pattern p"
proof -
  obtain w ws where "py_split 42 p = w # ws"
    using py_split_nonempty [of 42 p] by (cases "py_split 42 p") auto
  with assms show ?thesis
    using py_join_append_head [of "[46, 42, 63]" "if re_special c then [92, c] else [c]" "re_escape w" "map re_escape ws"]
    by (simp add: spec_regex_of_pattern_def asc_wild re_escape_Cons)
qed

lemma replace_esc_wild:
  "replace_ne [92, 46, 92, 42, 92, 63] [46, 42, 63] (esc_wild p) = spec_regex_of_pattern p"
proof (induction p)
  case Nil
  then show ?case by (simp add: esc_wild_Nil spec_regex_of_pattern_def re_escape_def)
next
  case (Cons c p)
  show ?case
  proof (cases "c = 42")
    case True
    with Cons show ?thesis by (simp add: esc_wild_star spec_star)
  next
    case False
    from esc_wild_head [of p]
    have "\<not> prefix [46] (esc_wild p)" and "\<not> prefix [92, 42] (esc_wild p)" by simp_all
    then have h1: "\<not> prefix (46 # r) (esc_wild p)" and h2: "\<not> prefix (92 # 42 # r) (esc_wild p)" for r
      using append_prefixD [of "[46]" r "esc_wild p"] append_prefixD [of "[92, 42]" r "esc_wild p"]
      by auto
    show ?thesis
    proof (cases "re_special c")
      case True
      have "replace_ne [92, 46, 92, 42, 92, 63] [46, 42, 63] (92 # c # esc_wild p)
            = 92 # c # replace_ne [92, 46, 92, 42, 92, 63] [46, 42, 63] (esc_wild p)"
        using h1 h2 by (auto simp: prefix_Cons)
      with Cons False True show ?thesis by (simp add: esc_wild_other spec_other)
    next
      case nsp: False
      then have "c \<noteq> 92" using special_wild by auto
      with Cons False nsp show ?thesis by (simp add: esc_wild_other spec_other)
    qed
  qed
qed

lemma py_take_length: "0 \<le> k \<Longrightarrow> int (length s) > k \<Longrightarrow> int (length (py_take k s)) = k"
  by (simp add: py_take_def)

lemma truncate_name_length:
  "0 \<le> max_length cfg \<Longrightarrow> int (length (truncate_name cfg name)) \<le> max_length cfg"
  by (simp add: truncate_name_def py_take_def)

lemma py_strip_length: "length (py_strip db s) \<le> length s"
proof -
  have "length (dropWhile P xs) \<le> length xs" for P and xs :: ustr
    by (rule length_dropWhile_le)
  from this [of "is_space db" "rev (dropWhile (is_space db) s)"] this [of "is_space db" s]
  show ?thesis by (simp add: py_strip_def)
qed








lemma re_parse_spec_regex: "\<exists>ts. re_parse (spec_regex_of_pattern p) = Some ts"
proof (induction p)
  case Nil
  then show ?case by (simp add: spec_regex_of_pattern_def re_escape_def)
next
  case (Cons c p)
  then obtain ts where ts: "re_parse (spec_regex_of_pattern p) = Some ts" by blast
  show ?case
  proof (cases "c = 42")
    case True
    with ts show ?thesis by (simp add: spec_star)
  next
    case False
    show ?thesis
    proof (cases "re_special c")
      case True
      with False ts show ?thesis by (simp add: spec_other)
    next
      case nsp: False
      then have "c \<noteq> 92" "c \<noteq> 46" using special_wild by auto
      with False nsp ts show ?thesis by (simp add: spec_other)
    qed
  qed
qed

lemma remove_all_modelled: "remove_all ps s \<noteq> Inl RegexNotModelled"
proof (induction ps arbitrary: s)
  case Nil
  then show ?case by simp
next
  case (Cons p ps)
  obtain ts where "re_parse (regex_of_pattern p) = Some ts"
    using re_parse_spec_regex [of p] replace_esc_wild [of p]
    by (auto simp: regex_of_pattern_def py_replace_def asc_wild esc_wild_def)
  with Cons show ?case by (simp add: re_sub_def)
qed

section \<open>Claims about the Normalizer's patterns\<close>

text \<open>
  Claim C5.  For every remove-pattern, the regular expression that \<^verbatim>\<open>_clean_filename\<close>
  compiles (every \<^verbatim>\<open>*\<close> replaced by \<^verbatim>\<open>.*?\<close>, the whole string escaped, every escaped
  wildcard turned back) is the same string as the one the specification describes: the
  pattern split on the wildcard, each literal segment escaped, the segments joined with
  the non-greedy match-any rule.  And removing the pattern \<^verbatim>\<open>[*]\<close> from the stem of
  \<^verbatim>\<open>Song [Copyright Free] Track.mp4\<close> deletes the bracketed span and leaves
  \<^verbatim>\<open>Song  Track\<close>, with both spaces, before trimming and truncation.
\<close>

theorem regex_of_pattern_refines_spec:
  "regex_of_pattern p = spec_regex_of_pattern p
   \<and> remove_all [asc ''[*]''] (path_stem (asc ''Song [Copyright Free] Track.mp4''))
       = Inr (asc ''Song  Track'')"
proof
  show "regex_of_pattern p = spec_regex_of_pattern p"
    using replace_esc_wild [of p]
    by (simp add: regex_of_pattern_def py_replace_def asc_wild esc_wild_def)
next
  show "remove_all [asc ''[*]''] (path_stem (asc ''Song [Copyright Free] Track.mp4''))
       = Inr (asc ''Song  Track'')"
    by code_simp
qed





text \<open>
  Claim C7.  With a non-negative configured limit: when the text left after pattern
  removal, optional translation and the removal of special characters is longer than
  \<^verbatim>\<open>max_filename_length\<close>, \<^verbatim>\<open>_clean_filename\<close> cuts it to exactly that many characters
  (its first ones) before the final \<^verbatim>\<open>strip()\<close>; and every cleaned stem that
  \<^verbatim>\<open>_clean_filename\<close> returns is at most \<^verbatim>\<open>max_filename_length\<close> characters long.
\<close>

theorem clean_filename_length:
  assumes "0 \<le> max_length cfg"
  shows "(special_stripped db sv cfg f = Inr n \<and> int (length n) > max_length cfg
            \<longrightarrow> truncate_name cfg n = take (nat (max_length cfg)) n
              \<and> int (length (truncate_name cfg n)) = max_length cfg
              \<and> clean_filename db sv cfg f = Inr (py_strip db (truncate_name cfg n)))
       \<and> (clean_filename db sv cfg f = Inr r \<longrightarrow> int (length r) \<le> max_length cfg)"
proof (intro conjI impI)
  assume a: "special_stripped db sv cfg f = Inr n \<and> int (length n) > max_length cfg"
  with assms show "truncate_name cfg n = take (nat (max_length cfg)) n"
    by (simp add: truncate_name_def py_take_def)
  from a assms show "int (length (truncate_name cfg n)) = max_length cfg"
    by (simp add: truncate_name_def py_take_length)
  from a show "clean_filename db sv cfg f = Inr (py_strip db (truncate_name cfg n))"
    by (simp add: clean_filename_def)
next
  assume "clean_filename db sv cfg f = Inr r"
  then obtain m where r: "r = py_strip db (truncate_name cfg m)"
    by (auto simp: clean_filename_def split: sum.splits)
  from py_strip_length [of db "truncate_name cfg m"] truncate_name_length [OF assms, of m]
  show "int (length r) \<le> max_length cfg" unfolding r by linarith
qed

theorem clean_filename_length_witness:
  "0 \<le> max_length ex_cfg
   \<and> special_stripped ex_db ex_sv ex_cfg (asc ''Song [x] Track!'') = Inr (asc ''Song  Track'')
   \<and> int (length (asc ''Song  Track'')) > max_length ex_cfg
   \<and> int (length (truncate_name ex_cfg (asc ''Song  Track''))) = max_length ex_cfg
   \<and> clean_filename ex_db ex_sv ex_cfg (asc ''Song [x] Track!'') = Inr (asc ''Song  Tr'')
   \<and> int (length (asc ''Song  Tr'')) \<le> max_length ex_cfg"
proof -
  have h: "0 \<le> max_length ex_cfg" by (simp add: max_length_def ex_cfg_def)
  have a: "special_stripped ex_db ex_sv ex_cfg (asc ''Song [x] Track!'') = Inr (asc ''Song  Track'')"
    by code_simp
  have b: "int (length (asc ''Song  Track'')) > max_length ex_cfg"
    by (simp add: max_length_def ex_cfg_def asc_def)
  have c: "clean_filename ex_db ex_sv ex_cfg (asc ''Song [x] Track!'') = Inr (asc ''Song  Tr'')"
    by code_simp
  note t = clean_filename_length [OF h, of ex_db ex_sv "asc ''Song [x] Track!''" "asc ''Song  Track''" "asc ''Song  Tr''"]
  from t a b have "int (length (truncate_name ex_cfg (asc ''Song  Track''))) = max_length ex_cfg"
    by blast
  moreover from t c have "int (length (asc ''Song  Tr'')) \<le> max_length ex_cfg" by blast
  ultimately show ?thesis using h a b c by blast
qed



section \<open>Claims about \<^verbatim>\<open>process_directory\<close>\<close>

lemma map_of_filter_fst:
  "map_of (filter (\<lambda>e. P (fst e)) d) k = (if P k then map_of d k else None)"
  by (induction d) auto

lemma rename_entry_frame:
  assumes "rename_entry sys d src dst = Inr d'" and "k \<noteq> src" and "k \<noteq> dst"
  shows "map_of d' k = map_of d k"
proof -
  from assms(1) obtain n where
    d': "d' = (dst, n) # filter (\<lambda>e. fst e \<noteq> src \<and> fst e \<noteq> dst) d"
    by (auto simp: rename_entry_def Let_def split: option.splits node.splits if_splits)
  show ?thesis unfolding d'
    using assms(2,3) map_of_filter_fst [of "\<lambda>x. x \<noteq> src \<and> x \<noteq> dst" d k] by simp
qed

lemma write_entry_frame:
  assumes "write_entry sys d name text = Inr d'" and "k \<noteq> name"
  shows "map_of d' k = map_of d k"
proof -
  from assms(1) have d': "d' = (name, File text) # filter (\<lambda>e. fst e \<noteq> name) d"
    by (auto simp: write_entry_def split: option.splits node.splits)
  show ?thesis unfolding d'
    using assms(2) map_of_filter_fst [of "\<lambda>x. x \<noteq> name" d k] by simp
qed



lemma process_file_log:
  "\<exists>ext. snd (process_file db sv sys cfg (d, log) f) = log @ ext
     \<and> (\<forall>e \<in> set ext. effect_of db sv cfg f e)
     \<and> length (filter is_outcome ext) = 1"
proof (cases "clean_filename db sv cfg (path_stem f)")
  case (Inl e)
  then show ?thesis by (simp add: process_file_def effect_of_def)
next
  case (Inr new_name)
  show ?thesis
  proof (cases "same_name sys db f (new_name @ mp4_ext)")
    case True
    with Inr show ?thesis
      by (cases "write_entry sys d (new_name @ txt_ext) (get_video_description db sv new_name)")
         (simp_all add: process_file_def effect_of_def)
  next
    case False
    show ?thesis
    proof (cases "rename_entry sys d f (new_name @ mp4_ext)")
      case (Inl e)
      with Inr False show ?thesis by (simp add: process_file_def effect_of_def)
    next
      case r: (Inr d1)
      with Inr False show ?thesis
        by (cases "write_entry sys d1 (new_name @ txt_ext) (get_video_description db sv new_name)")
           (simp_all add: process_file_def effect_of_def)
    qed
  qed
qed

lemma suffix_self_append: "suffix e (n @ e)"
  by (simp add: suffix_def)

lemma process_file_frame:
  assumes "k \<noteq> f" and "\<not> suffix mp4_ext k" and "\<not> suffix txt_ext k"
  shows "map_of (fst (process_file db sv sys cfg (d, log) f)) k = map_of d k"
proof (cases "clean_filename db sv cfg (path_stem f)")
  case (Inl e)
  then show ?thesis by (simp add: process_file_def)
next
  case (Inr new_name)
  from assms(2) have k1: "k \<noteq> new_name @ mp4_ext" using suffix_self_append by blast
  from assms(3) have k2: "k \<noteq> new_name @ txt_ext" using suffix_self_append by blast
  show ?thesis
  proof (cases "same_name sys db f (new_name @ mp4_ext)")
    case True
    show ?thesis
    proof (cases "write_entry sys d (new_name @ txt_ext) (get_video_description db sv new_name)")
      case (Inl e)
      with Inr True show ?thesis by (simp add: process_file_def)
    next
      case w: (Inr d2)
      from write_entry_frame [OF w k2] Inr True w show ?thesis by (simp add: process_file_def)
    qed
  next
    case False
    show ?thesis
    proof (cases "rename_entry sys d f (new_name @ mp4_ext)")
      case (Inl e)
      with Inr False show ?thesis by (simp add: process_file_def)
    next
      case r: (Inr d1)
      from rename_entry_frame [OF r assms(1) k1] have d1: "map_of d1 k = map_of d k" .
      show ?thesis
      proof (cases "write_entry sys d1 (new_name @ txt_ext) (get_video_description db sv new_name)")
        case (Inl e)
        with Inr False r d1 show ?thesis by (simp add: process_file_def)
      next
        case w: (Inr d2)
        from write_entry_frame [OF w k2] Inr False r d1 w show ?thesis
          by (simp add: process_file_def)
      qed
    qed
  qed
qed

lemma process_files_snoc:
  "process_files db sv sys cfg st (fs @ [f])
     = process_file db sv sys cfg (process_files db sv sys cfg st fs) f"
  by (simp add: process_files_def)

lemma process_files_log:
  "\<exists>ext. snd (process_files db sv sys cfg st fs) = snd st @ ext
     \<and> (\<forall>e \<in> set ext. \<exists>f \<in> set fs. effect_of db sv cfg f e)
     \<and> length (filter is_outcome ext) = length fs"
proof (induction fs rule: rev_induct)
  case Nil
  then show ?case by (simp add: process_files_def)
next
  case (snoc f fs)
  then obtain ext where ext: "snd (process_files db sv sys cfg st fs) = snd st @ ext"
    and of: "\<forall>e \<in> set ext. \<exists>f \<in> set fs. effect_of db sv cfg f e"
    and n: "length (filter is_outcome ext) = length fs" by blast
  obtain d where st': "process_files db sv sys cfg st fs = (d, snd st @ ext)"
    using ext by (cases "process_files db sv sys cfg st fs") simp
  from process_file_log [of db sv sys cfg d "snd st @ ext" f]
  obtain ext' where e1: "snd (process_file db sv sys cfg (d, snd st @ ext) f) = (snd st @ ext) @ ext'"
    and e2: "\<forall>e \<in> set ext'. effect_of db sv cfg f e"
    and e3: "length (filter is_outcome ext') = 1" by blast
  have "snd (process_files db sv sys cfg st (fs @ [f])) = snd st @ (ext @ ext')"
    using e1 by (simp add: process_files_snoc st')
  moreover have "\<forall>e \<in> set (ext @ ext'). \<exists>g \<in> set (fs @ [f]). effect_of db sv cfg g e"
    using of e2 by auto
  moreover have "length (filter is_outcome (ext @ ext')) = length (fs @ [f])"
    using n e3 by simp
  ultimately show ?case by blast
qed

lemma process_files_frame:
  assumes "k \<notin> set fs" and "\<not> suffix mp4_ext k" and "\<not> suffix txt_ext k"
  shows "map_of (fst (process_files db sv sys cfg st fs)) k = map_of (fst st) k"
  using assms(1)
proof (induction fs rule: rev_induct)
  case Nil
  then show ?case by (simp add: process_files_def)
next
  case (snoc f fs)
  then have kf: "k \<noteq> f" and IH: "map_of (fst (process_files db sv sys cfg st fs)) k = map_of (fst st) k"
    by simp_all
  obtain d log where st': "process_files db sv sys cfg st fs = (d, log)"
    by (cases "process_files db sv sys cfg st fs")
  from process_file_frame [OF kf assms(2,3), of db sv sys cfg d log] IH
  show ?case by (simp add: process_files_snoc st')
qed

lemma glob_mp4_set:
  "case_sensitive sys \<Longrightarrow> set (glob_mp4 sys db d) = {name \<in> fst ` set d. suffix mp4_ext name}"
  by (auto simp: glob_mp4_def glob_match_def)



lemma ex_clean: "clean_filename ex_db ex_sv ex_cfg (path_stem (asc ''Song [x] Track!.mp4'')) = Inr (asc ''Song  Tr'')"
  by code_simp
lemma ex_glob: "glob_mp4 ex_os ex_db ex_dir = [asc ''Song [x] Track!.mp4'']"
  by code_simp
lemma ex_same: "same_name ex_os ex_db (asc ''Song [x] Track!.mp4'') (asc ''Song  Tr'' @ mp4_ext) = False"
  by code_simp
lemma ex_descr: "get_video_description ex_db ex_sv (asc ''Song  Tr'') = fallback_prefix @ asc ''Song  Tr''"
  by (simp add: get_video_description_def ex_sv_def)
lemma ex_rename:
  "rename_entry ex_os ex_dir (asc ''Song [x] Track!.mp4'') (asc ''Song  Tr'' @ mp4_ext)
   = Inr ((asc ''Song  Tr.mp4'', File []) # tl ex_dir)"
  by (simp add: rename_entry_def ex_os_def ex_dir_def asc_def mp4_ext_def)
lemma ex_write:
  "write_entry ex_os ((asc ''Song  Tr.mp4'', File []) # tl ex_dir) (asc ''Song  Tr'' @ txt_ext)
     (fallback_prefix @ asc ''Song  Tr'') = Inr ex_dir_after"
  by (simp add: write_entry_def ex_os_def ex_dir_def ex_dir_after_def asc_def txt_ext_def)
lemma ex_process_directory:
  "process_directory ex_db ex_sv ex_os ex_cfg (Some (Dir ex_dir))
   = Inr (Some (Dir ex_dir_after),
          [Renamed (asc ''Song [x] Track!.mp4'') (asc ''Song  Tr'' @ mp4_ext),
           Wrote (asc ''Song  Tr'' @ txt_ext) (fallback_prefix @ asc ''Song  Tr'')])"
proof -
  have "video_directory ex_cfg = Some (asc ''videos'')" by (simp add: ex_cfg_def)
  then show ?thesis
    by (simp add: process_directory_def process_files_def process_file_def
        ex_glob ex_clean ex_same ex_descr ex_rename ex_write)
qed



text \<open>
  Claim C10.  Where path matching is case-sensitive, every effect of \<^verbatim>\<open>process_directory\<close>
  (a rename, a sidecar, a logged failure) comes from an entry directly under the configured
  directory whose name ends in lower-case \<^verbatim>\<open>.mp4\<close>; and every name that ends neither in
  \<^verbatim>\<open>.mp4\<close> nor in \<^verbatim>\<open>.txt\<close> still leads to the same node afterwards: videos with another
  extension, an upper-case \<^verbatim>\<open>.MP4\<close>, and every sub-directory with all it contains.
\<close>

theorem process_directory_frame:
  assumes posix: "case_sensitive sys"
    and run: "process_directory db sv sys cfg (Some (Dir d)) = Inr (Some (Dir d'), log)"
  shows "(\<forall>x \<in> set log. \<exists>f \<in> fst ` set d. suffix mp4_ext f \<and> effect_of db sv cfg f x)
       \<and> (\<forall>k. \<not> suffix mp4_ext k \<and> \<not> suffix txt_ext k \<longrightarrow> map_of d' k = map_of d k)"
proof -
  from run have pf: "process_files db sv sys cfg (d, []) (glob_mp4 sys db d) = (d', log)"
    by (auto simp: process_directory_def split: option.splits prod.splits)
  from process_files_log [of db sv sys cfg "(d, [])" "glob_mp4 sys db d"] pf
  have "\<forall>x \<in> set log. \<exists>f \<in> set (glob_mp4 sys db d). effect_of db sv cfg f x" by auto
  then have a: "\<forall>x \<in> set log. \<exists>f \<in> fst ` set d. suffix mp4_ext f \<and> effect_of db sv cfg f x"
    unfolding glob_mp4_set [OF posix] by blast
  have b: "map_of d' k = map_of d k" if k: "\<not> suffix mp4_ext k \<and> \<not> suffix txt_ext k" for k
  proof -
    from k have "k \<notin> set (glob_mp4 sys db d)" unfolding glob_mp4_set [OF posix] by blast
    from process_files_frame [OF this, of db sv sys cfg "(d, [])"] k pf show ?thesis by simp
  qed
  from a b show ?thesis by blast
qed

theorem process_directory_frame_witness:
  "case_sensitive ex_os
   \<and> process_directory ex_db ex_sv ex_os ex_cfg (Some (Dir ex_dir))
       = Inr (Some (Dir ex_dir_after),
              [Renamed (asc ''Song [x] Track!.mp4'') (asc ''Song  Tr'' @ mp4_ext),
               Wrote (asc ''Song  Tr'' @ txt_ext) (fallback_prefix @ asc ''Song  Tr'')])
   \<and> \<not> suffix mp4_ext (asc ''B.MP4'') \<and> \<not> suffix txt_ext (asc ''B.MP4'')
   \<and> map_of ex_dir_after (asc ''B.MP4'') = map_of ex_dir (asc ''B.MP4'')
   \<and> \<not> suffix mp4_ext (asc ''c.mov'') \<and> \<not> suffix txt_ext (asc ''c.mov'')
   \<and> map_of ex_dir_after (asc ''c.mov'') = map_of ex_dir (asc ''c.mov'')
   \<and> \<not> suffix mp4_ext (asc ''sub'') \<and> \<not> suffix txt_ext (asc ''sub'')
   \<and> map_of ex_dir_after (asc ''sub'') = map_of ex_dir (asc ''sub'')
   \<and> map_of ex_dir (asc ''sub'') = Some (Dir [(asc ''d.mp4'', File [])])"
proof -
  have posix: "case_sensitive ex_os" by (simp add: ex_os_def)
  have n1: "\<not> suffix mp4_ext (asc ''B.MP4'') \<and> \<not> suffix txt_ext (asc ''B.MP4'')" by code_simp
  have n2: "\<not> suffix mp4_ext (asc ''c.mov'') \<and> \<not> suffix txt_ext (asc ''c.mov'')" by code_simp
  have n3: "\<not> suffix mp4_ext (asc ''sub'') \<and> \<not> suffix txt_ext (asc ''sub'')" by code_simp
  have sub: "map_of ex_dir (asc ''sub'') = Some (Dir [(asc ''d.mp4'', File [])])"
    by (simp add: ex_dir_def asc_def)
  note t = process_directory_frame [OF posix ex_process_directory]
  from t n1 n2 n3 sub posix ex_process_directory show ?thesis by blast
qed

section \<open>Claims about the Router\<close>

lemma resolve_files_prints:
  "resolve_files sys db w a = Inr (printed, vf) \<Longrightarrow> \<forall>e \<in> set printed. is_print e"
  by (auto simp: resolve_files_def Let_def split: if_splits)

lemma validate_prints: "\<forall>e \<in> set (fst (validate sys db w a)). is_print e"
proof (cases "resolve_files sys db w a")
  case (Inl e)
  then show ?thesis by (simp add: validate_def)
next
  case (Inr r)
  obtain printed vf where r: "r = (printed, vf)" by (cases r)
  from resolve_files_prints [of sys db w a printed vf] Inr r
  show ?thesis by (auto simp: validate_def split: option.splits)
qed

lemma validate_missing:
  assumes "\<exists>p \<in> set (validated_files sys db w a). \<not> path_exists w p"
  shows "snd (validate sys db w a) = Some FileNotFoundError"
proof (cases "resolve_files sys db w a")
  case (Inl e)
  with assms have "e = FileNotFoundError"
    by (auto simp: resolve_files_def validated_files_def Let_def split: if_splits)
  with Inl show ?thesis by (simp add: validate_def)
next
  case (Inr r)
  obtain printed vf where r: "r = (printed, vf)" by (cases r)
  from Inr r have "vf = validated_files sys db w a"
    by (auto simp: resolve_files_def validated_files_def Let_def split: if_splits)
  with assms have "find (\<lambda>video_file. \<not> path_exists w video_file) vf \<noteq> None"
    by (auto simp: find_None_iff)
  with Inr r show ?thesis by (auto simp: validate_def)
qed

lemma upload_files_validated:
  "files_given a \<or> directory_given a \<Longrightarrow>
   upload_files sys db w a = Inr (validated_files sys db w a)"
  by (auto simp: upload_files_def validated_files_def directory_given_def
      split: option.splits list.splits)

text \<open>
  What the checks of lines 63 to 79 do achieve: when files are given, or a directory as a
  non-empty string, and some path of the list to upload does not exist, \<^verbatim>\<open>main\<close> raises
  \<^verbatim>\<open>FileNotFoundError\<close> and has done nothing but print.
\<close>

lemma given_paths_checked_first:
  assumes "action a = Upload"
    and "files_given a \<or> directory_given a"
    and "upload_files sys db w a = Inr video_files"
    and "\<exists>p \<in> set video_files. \<not> path_exists w p"
  shows "snd (main sys db w a) = Some FileNotFoundError
       \<and> (\<forall>e \<in> set (fst (main sys db w a)). is_print e \<and> \<not> is_adapter_call e)"
proof -
  from upload_files_validated [OF assms(2), of sys db w] assms(3,4)
  have "\<exists>p \<in> set (validated_files sys db w a). \<not> path_exists w p" by simp
  then obtain checked where v: "validate sys db w a = (checked, Some FileNotFoundError)"
    using validate_missing [of sys db w a] by (cases "validate sys db w a") simp
  from validate_prints [of sys db w a] v have p: "\<forall>e \<in> set checked. is_print e" by simp
  have "is_print e \<Longrightarrow> \<not> is_adapter_call e" for e by (cases e) simp_all
  with p have "\<forall>e \<in> set checked. is_print e \<and> \<not> is_adapter_call e" by blast
  moreover from assms(1) v have "main sys db w a = (checked, Some FileNotFoundError)"
    by (simp add: main_def)
  ultimately show ?thesis by simp
qed

lemma ex_cwd_account_file:
  "account_file_of ex_cwd_world ex_cwd_args = asc ''/app/cookies/douyin_xiaoA.json''"
  by code_simp

lemma ex_cwd_account_dir: "account_dir ex_cwd_world ex_cwd_args = asc ''/app/cookies''"
  by code_simp

lemma ex_cwd_upload_files:
  "upload_files ex_os ex_db ex_cwd_world ex_cwd_args = Inr [asc ''x.mp4'']"
  by code_simp

lemma ex_cwd_validate: "validate ex_os ex_db ex_cwd_world ex_cwd_args = ([], None)"
  by (simp add: validate_def resolve_files_def files_given_def directory_given_def
      ex_cwd_args_def)

lemma ex_cwd_loop:
  "upload_loop ex_db ex_cwd_world ex_cwd_args (asc ''/app/cookies/douyin_xiaoA.json'')
     [asc ''x.mp4'']
   = ([Extract (asc ''x.mp4''), Print (Uploading (asc ''x.mp4'')),
       Setup Douyin (asc ''/app/cookies/douyin_xiaoA.json'') False, Build (ex_job (asc ''x'')),
       Run (ex_job (asc ''x'')), Print (Completed (asc ''x.mp4''))], None)"
proof -
  have t: "title_and_hashtags ex_cwd_world (asc ''x.mp4'') = Inr (asc ''x'', [])"
    by (simp add: ex_cwd_world_def) code_simp
  have p: "publish_step ex_db ex_cwd_args (asc ''x.mp4'')
           = ([Print (Uploading (asc ''x.mp4''))], Inr (IntV 0))"
    by (simp add: publish_step_def ex_cwd_args_def)
  have d: "dispatch ex_cwd_world ex_cwd_args (asc ''/app/cookies/douyin_xiaoA.json'')
             (asc ''x'') (asc ''x.mp4'') [] (IntV 0)
           = ([Setup Douyin (asc ''/app/cookies/douyin_xiaoA.json'') False, Build (ex_job (asc ''x''))],
              Inr (ex_job (asc ''x'')))"
    by (simp add: dispatch_def setup_and_build_def ex_cwd_args_def ex_cwd_world_def ex_job_def
        asc_def mp4_ext_def)
  have j: "job_error ex_cwd_world (ex_job (asc ''x'')) = None" by (simp add: ex_cwd_world_def)
  from t p d j show ?thesis by simp
qed

text \<open>
  Claim C2, at the input where the code departs from it.  For \<^verbatim>\<open>upload -d ''\<close> the block of
  checks takes the empty string for no directory and checks an empty list, while line 99
  discovers the videos of the working directory.  The path \<^verbatim>\<open>x.mp4\<close> does not exist, yet
  no error is raised: its session is set up, its job constructed and run.
\<close>

theorem upload_unchecked_directory:
  "action ex_cwd_args = Upload \<and> directory ex_cwd_args = Some []
   \<and> validated_files ex_os ex_db ex_cwd_world ex_cwd_args = []
   \<and> upload_files ex_os ex_db ex_cwd_world ex_cwd_args = Inr [asc ''x.mp4'']
   \<and> \<not> path_exists ex_cwd_world (asc ''x.mp4'')
   \<and> main ex_os ex_db ex_cwd_world ex_cwd_args
       = ([Mkdir (asc ''/app/cookies''), Extract (asc ''x.mp4''), Print (Uploading (asc ''x.mp4'')),
           Setup Douyin (asc ''/app/cookies/douyin_xiaoA.json'') False, Build (ex_job (asc ''x'')),
           Run (ex_job (asc ''x'')), Print (Completed (asc ''x.mp4''))], None)"
proof -
  have a: "action ex_cwd_args = Upload" "directory ex_cwd_args = Some []"
    by (simp_all add: ex_cwd_args_def)
  have v: "validated_files ex_os ex_db ex_cwd_world ex_cwd_args = []"
    by (simp add: validated_files_def files_given_def directory_given_def ex_cwd_args_def)
  have e: "\<not> path_exists ex_cwd_world (asc ''x.mp4'')"
    by (simp add: path_exists_def ex_cwd_world_def asc_def)
  have m: "mkdir_error ex_cwd_world = None" by (simp add: ex_cwd_world_def)
  have "main ex_os ex_db ex_cwd_world ex_cwd_args
       = ([Mkdir (asc ''/app/cookies''), Extract (asc ''x.mp4''), Print (Uploading (asc ''x.mp4'')),
           Setup Douyin (asc ''/app/cookies/douyin_xiaoA.json'') False, Build (ex_job (asc ''x'')),
           Run (ex_job (asc ''x'')), Print (Completed (asc ''x.mp4''))], None)"
    by (simp add: main_def a ex_cwd_validate m ex_cwd_upload_files ex_cwd_account_file
        ex_cwd_account_dir ex_cwd_loop del: upload_loop.simps)
  with a v e ex_cwd_upload_files show ?thesis by simp
qed

lemma upload_loop_append:
  "snd (upload_loop db w a acct pre) = None \<Longrightarrow>
   upload_loop db w a acct (pre @ rest)
     = (fst (upload_loop db w a acct pre) @ fst (upload_loop db w a acct rest),
        snd (upload_loop db w a acct rest))"
proof (induction pre)
  case Nil
  then show ?case by simp
next
  case (Cons f pre)
  then show ?case
    by (auto split: sum.splits prod.splits option.splits)
qed

lemma upload_loop_failed_job:
  assumes "title_and_hashtags w f = Inr (title, tags)"
    and "publish_step db a f = (printed, Inr pd)"
    and "dispatch w a acct title f tags pd = (called, Inr app)"
    and "job_error w app = Some e"
  shows "upload_loop db w a acct (f # post) = (Extract f # printed @ called @ [Run app], Some e)"
  using assms by simp


text \<open>
  Claim C3.  When the job of a video raises, after the videos before it went through, the
  loop ends with that error: the events are those of the earlier videos and of this one up
  to the run of its job, whatever videos follow, so none of them is touched; and \<^verbatim>\<open>main\<close>
  ends with the same events and the same error.
\<close>

theorem upload_stops_at_failed_job:
  assumes pre_ok: "snd (upload_loop db w a (account_file_of w a) pre) = None"
    and title: "title_and_hashtags w f = Inr (title, tags)"
    and publish: "publish_step db a f = (printed, Inr pd)"
    and built: "dispatch w a (account_file_of w a) title f tags pd = (called, Inr app)"
    and failed: "job_error w app = Some e"
  shows "upload_loop db w a (account_file_of w a) (pre @ f # post)
           = (fst (upload_loop db w a (account_file_of w a) pre)
                @ Extract f # printed @ called @ [Run app], Some e)
       \<and> (action a = Upload \<and> validate sys db w a = (checked, None) \<and> mkdir_error w = None
            \<and> upload_files sys db w a = Inr (pre @ f # post)
          \<longrightarrow> main sys db w a
                = (checked @ Mkdir (account_dir w a) # fst (upload_loop db w a (account_file_of w a) pre)
                     @ Extract f # printed @ called @ [Run app], Some e))"
proof -
  have loop: "upload_loop db w a (account_file_of w a) (pre @ f # post)
           = (fst (upload_loop db w a (account_file_of w a) pre)
                @ Extract f # printed @ called @ [Run app], Some e)"
    unfolding upload_loop_append [OF pre_ok]
      upload_loop_failed_job [OF title publish built failed] by simp
  then show ?thesis by (simp add: main_def)
qed

lemma ex_account_file: "account_file_of ex_world ex_args = asc ''/app/cookies/douyin_xiaoA.json''"
  by code_simp

lemma ex_title:
  "title_and_hashtags ex_world (asc ''a.mp4'') = Inr (asc ''a'', [])"
  "title_and_hashtags ex_world (asc ''b.mp4'') = Inr (asc ''b'', [])"
  "title_and_hashtags ex_world (asc ''c.mp4'') = Inr (asc ''c'', [])"
  by (simp_all add: ex_world_def) code_simp+

lemma ex_publish: "publish_step db ex_args f = ([Print (Uploading f)], Inr (IntV 0))"
  by (simp add: publish_step_def ex_args_def)

lemma ex_dispatch:
  "dispatch ex_world ex_args (asc ''/app/cookies/douyin_xiaoA.json'') name (name @ mp4_ext) [] (IntV 0)
   = ([Setup Douyin (asc ''/app/cookies/douyin_xiaoA.json'') False, Build (ex_job name)],
      Inr (ex_job name))"
  by (simp add: dispatch_def setup_and_build_def ex_args_def ex_world_def ex_job_def)

lemma ex_names: "asc ''a.mp4'' = asc ''a'' @ mp4_ext" "asc ''b.mp4'' = asc ''b'' @ mp4_ext"
  "asc ''c.mp4'' = asc ''c'' @ mp4_ext"
  by (simp_all add: asc_def mp4_ext_def)

lemma ex_job_error:
  "job_error ex_world (ex_job (asc ''a'')) = None"
  "job_error ex_world (ex_job (asc ''b'')) = Some PlatformError"
  by (simp_all add: ex_world_def ex_job_def asc_def mp4_ext_def)

lemma ex_loop_a:
  "upload_loop ex_db ex_world ex_args (asc ''/app/cookies/douyin_xiaoA.json'') [asc ''a.mp4'']
   = ([Extract (asc ''a.mp4''), Print (Uploading (asc ''a.mp4'')),
       Setup Douyin (asc ''/app/cookies/douyin_xiaoA.json'') False, Build (ex_job (asc ''a'')),
       Run (ex_job (asc ''a'')), Print (Completed (asc ''a.mp4''))], None)"
  using ex_dispatch [of "asc ''a''"] ex_job_error(1)
  by (simp add: ex_title ex_publish ex_names [symmetric])

theorem upload_stops_at_failed_job_witness:
  "snd (upload_loop ex_db ex_world ex_args (account_file_of ex_world ex_args) [asc ''a.mp4'']) = None
   \<and> title_and_hashtags ex_world (asc ''b.mp4'') = Inr (asc ''b'', [])
   \<and> job_error ex_world (ex_job (asc ''b'')) = Some PlatformError
   \<and> upload_loop ex_db ex_world ex_args (account_file_of ex_world ex_args)
         ([asc ''a.mp4''] @ asc ''b.mp4'' # [asc ''c.mp4''])
       = (fst (upload_loop ex_db ex_world ex_args (account_file_of ex_world ex_args) [asc ''a.mp4''])
            @ Extract (asc ''b.mp4'') # [Print (Uploading (asc ''b.mp4''))]
            @ [Setup Douyin (asc ''/app/cookies/douyin_xiaoA.json'') False, Build (ex_job (asc ''b''))]
            @ [Run (ex_job (asc ''b''))], Some PlatformError)"
proof -
  have pre: "snd (upload_loop ex_db ex_world ex_args (account_file_of ex_world ex_args) [asc ''a.mp4'']) = None"
    unfolding ex_account_file ex_loop_a by simp
  have d: "dispatch ex_world ex_args (account_file_of ex_world ex_args) (asc ''b'') (asc ''b.mp4'') [] (IntV 0)
   = ([Setup Douyin (asc ''/app/cookies/douyin_xiaoA.json'') False, Build (ex_job (asc ''b''))],
      Inr (ex_job (asc ''b'')))"
    using ex_dispatch [of "asc ''b''"] by (simp add: ex_account_file ex_names [symmetric])
  note t = upload_stops_at_failed_job [OF pre ex_title(2) ex_publish d ex_job_error(2),
      of "[asc ''c.mp4'']" ex_os "[]"]
  from t pre ex_title(2) ex_job_error(2) show ?thesis by blast
qed

lemma resolve_files_schedule:
  "resolve_files sys db w (a\<lparr>schedule := s\<rparr>) = resolve_files sys db w a"
  by (simp add: resolve_files_def files_given_def directory_given_def)

lemma validate_schedule:
  "publish_type a = 0 \<Longrightarrow> validate sys db w (a\<lparr>schedule := s\<rparr>) = validate sys db w a"
  by (simp add: validate_def resolve_files_schedule split: sum.splits prod.splits option.splits)

lemma dispatch_schedule:
  "dispatch w (a\<lparr>schedule := s\<rparr>) acct title f tags pd = dispatch w a acct title f tags pd"
  by (simp add: dispatch_def)

lemma publish_step_schedule:
  "publish_type a = 0 \<Longrightarrow> publish_step db (a\<lparr>schedule := s\<rparr>) f = publish_step db a f"
  by (simp add: publish_step_def)

lemma upload_loop_schedule:
  assumes "publish_type a = 0"
  shows "upload_loop db w (a\<lparr>schedule := s\<rparr>) acct fs = upload_loop db w a acct fs"
proof (induction fs)
  case Nil
  show ?case by simp
next
  case (Cons f fs)
  show ?case
    unfolding upload_loop.simps publish_step_schedule [OF assms] dispatch_schedule Cons.IH ..
qed

lemma dispatch_build:
  "Build j \<in> set (fst (dispatch w a acct title f tags pd)) \<Longrightarrow> job_publish_date j = pd"
  by (auto simp: dispatch_def setup_and_build_def split: platform.splits option.splits)

lemma upload_loop_build:
  "publish_type a = 0 \<Longrightarrow> Build j \<in> set (fst (upload_loop db w a acct fs))
   \<Longrightarrow> job_publish_date j = IntV 0"
proof (induction fs)
  case Nil
  then show ?case by simp
next
  case (Cons f fs)
  show ?case
  proof (cases "title_and_hashtags w f")
    case (Inl e)
    with Cons.prems show ?thesis by simp
  next
    case (Inr tt)
    obtain title tags where tt: "tt = (title, tags)" by (cases tt)
    obtain called r where d: "dispatch w a acct title f tags (IntV 0) = (called, r)"
      by (cases "dispatch w a acct title f tags (IntV 0)")
    have called: "Build j \<in> set called \<Longrightarrow> job_publish_date j = IntV 0"
      using dispatch_build [of j w a acct title f tags "IntV 0"] d by simp
    from Cons.prems Inr tt d called Cons.IH show ?thesis
      by (auto simp: publish_step_def split: sum.splits option.splits prod.splits)
  qed
qed

lemma main_build:
  assumes "publish_type a = 0" and "Build j \<in> set (fst (main sys db w a))"
  shows "job_publish_date j = IntV 0"
proof -
  obtain checked r where v: "(if action a = Upload then validate sys db w a else ([], None)) = (checked, r)"
    by (cases "if action a = Upload then validate sys db w a else ([], None)")
  have "\<forall>e \<in> set checked. is_print e"
    using validate_prints [of sys db w a] v by (auto split: if_splits)
  then have c: "Build j \<notin> set checked" by fastforce
  obtain levs lr where l: "login w a (account_file_of w a) = (levs, lr)"
    by (cases "login w a (account_file_of w a)")
  then have lb: "Build j \<notin> set levs"
    by (auto simp: login_def split: platform.splits)
  have ub: "Build j \<notin> set uevs"
    if "upload_loop db w a (account_file_of w a) fs = (uevs, ur)"
      and "job_publish_date j \<noteq> IntV 0" for fs uevs ur
    using upload_loop_build [OF assms(1), of j db w "account_file_of w a" fs] that by auto
  show ?thesis
  proof (rule ccontr)
    assume n: "job_publish_date j \<noteq> IntV 0"
    from assms(2) v c l lb ub [OF _ n] show False
      by (auto simp: main_def split: prod.splits option.splits action.splits sum.splits)
  qed
qed

lemma account_file_schedule: "account_file_of w (a\<lparr>schedule := s\<rparr>) = account_file_of w a"
  by (simp add: account_file_of_def)

lemma account_dir_schedule: "account_dir w (a\<lparr>schedule := s\<rparr>) = account_dir w a"
  by (simp add: account_dir_def account_file_schedule)

lemma login_schedule: "login w (a\<lparr>schedule := s\<rparr>) acct = login w a acct"
  by (simp add: login_def)

lemma upload_files_schedule:
  "upload_files sys db w (a\<lparr>schedule := s\<rparr>) = upload_files sys db w a"
  by (simp add: upload_files_def files_given_def)

text \<open>
  Claim C9.  With \<^verbatim>\<open>publish_type\<close> 0 the schedule argument plays no part: \<^verbatim>\<open>main\<close> does the
  same and ends the same whatever the schedule is, malformed or not, and every job it
  constructs carries the publish date 0.
\<close>

theorem immediate_ignores_schedule:
  assumes "publish_type a = 0"
  shows "main sys db w (a\<lparr>schedule := s\<rparr>) = main sys db w a
       \<and> (\<forall>j. Build j \<in> set (fst (main sys db w a)) \<longrightarrow> job_publish_date j = IntV 0)"
proof -
  have "main sys db w (a\<lparr>schedule := s\<rparr>) = main sys db w a"
  proof -
    have act: "action (a\<lparr>schedule := s\<rparr>) = action a" by simp
    show ?thesis
      unfolding main_def act validate_schedule [OF assms] account_file_schedule
        account_dir_schedule login_schedule upload_files_schedule
        upload_loop_schedule [OF assms] ..
  qed
  with main_build [OF assms] show ?thesis by blast
qed


lemma ex_validate: "validate ex_os ex_db ex_world ex_args = ([], None)"
  by (simp add: validate_def resolve_files_def files_given_def ex_args_def path_exists_def
      ex_world_def asc_def)

theorem immediate_ignores_schedule_witness:
  "publish_type ex_args = 0
   \<and> schedule ex_args = Some (asc ''not-a-date'')
   \<and> parse_schedule ex_db (schedule ex_args) = Inl ValueError
   \<and> main ex_os ex_db ex_world (ex_args\<lparr>schedule := None\<rparr>) = main ex_os ex_db ex_world ex_args"
proof -
  have pt: "publish_type ex_args = 0" by (simp add: ex_args_def)
  have sc: "schedule ex_args = Some (asc ''not-a-date'')" by (simp add: ex_args_def)
  have bad: "parse_schedule ex_db (Some (asc ''not-a-date'')) = Inl ValueError" by code_simp
  from immediate_ignores_schedule [OF pt, of ex_os ex_db ex_world None] pt sc bad
  show ?thesis by simp
qed

text \<open>
  Claim C4, at the input where the code departs from it.  On a POSIX system, for the
  directory \<^verbatim>\<open>videos\<close> that holds the single file \<^verbatim>\<open>CLIP.MP4\<close>, \<^verbatim>\<open>get_video_files\<close> returns
  the empty list, although the same file given as a single path is returned, and although
  the specification's discovery (extensions compared in lower case) finds it.
\<close>

theorem get_video_files_upper_case:
  "get_video_files ex_os ex_db ex_upper_fs (asc ''videos'') = []
   \<and> get_video_files ex_os ex_db ex_upper_fs (asc ''videos/CLIP.MP4'') = [asc ''videos/CLIP.MP4'']
   \<and> spec_discover ex_db (asc ''videos'') ex_upper_dir = [asc ''videos/CLIP.MP4'']"
proof (intro conjI)
  show "get_video_files ex_os ex_db ex_upper_fs (asc ''videos'') = []"
    by code_simp
  show "get_video_files ex_os ex_db ex_upper_fs (asc ''videos/CLIP.MP4'') = [asc ''videos/CLIP.MP4'']"
    by code_simp
  show "spec_discover ex_db (asc ''videos'') ex_upper_dir = [asc ''videos/CLIP.MP4'']"
    by code_simp
qed

section \<open>Claims about \<^verbatim>\<open>parse_schedule\<close>\<close>

lemma re_range_bounds: "(v, r) \<in> set (re_range a b s) \<Longrightarrow> a \<le> v \<and> v \<le> b"
  by (auto simp: re_range_def split: list.splits if_splits)

lemma re_digit_bound:
  assumes "\<forall>c v. uni_digit db c = Some v \<longrightarrow> v \<le> 9" and "(v, r) \<in> set (re_digit db s)"
  shows "v \<le> 9"
  using assms
  by (auto simp: re_digit_def digit_val_def split: list.splits option.splits if_splits)

lemma two_elim:
  "(v, r) \<in> set (two p q s) \<Longrightarrow> \<exists>a b r'. (a, r') \<in> set (p s) \<and> (b, r) \<in> set (q r') \<and> v = 10 * a + b"
  by (auto simp: two_def)

lemma field_m_bounds: "(v, r) \<in> set (field_m s) \<Longrightarrow> 1 \<le> v \<and> v \<le> 12"
  by (auto simp: field_m_def dest!: two_elim re_range_bounds)

lemma field_d_lower: "(v, r) \<in> set (field_d db s) \<Longrightarrow> 1 \<le> v"
  by (auto simp: field_d_def dest!: two_elim re_range_bounds)

lemma field_H_bound:
  assumes "\<forall>c v. uni_digit db c = Some v \<longrightarrow> v \<le> 9" and "(v, r) \<in> set (field_H db s)"
  shows "v \<le> 23"
  using assms(2) re_digit_bound [OF assms(1)]
  by (fastforce simp: field_H_def dest!: two_elim re_range_bounds)

lemma field_M_bound:
  assumes "\<forall>c v. uni_digit db c = Some v \<longrightarrow> v \<le> 9" and "(v, r) \<in> set (field_M db s)"
  shows "v \<le> 59"
  using assms(2) re_digit_bound [OF assms(1)]
  by (fastforce simp: field_M_def dest!: two_elim re_range_bounds)

lemma strptime_matches_elim:
  assumes "(y, m, d, H, M, rest) \<in> set (strptime_matches db s)"
  shows "\<exists>r1 r2 r3 r4 r5 r6 r7.
           (m, r2) \<in> set (field_m r1) \<and> (d, r4) \<in> set (field_d db r3)
           \<and> (H, r6) \<in> set (field_H db r5) \<and> (M, rest) \<in> set (field_M db r7)"
  using assms unfolding strptime_matches_def by auto

lemma strptime_sound:
  assumes digits: "\<forall>c v. uni_digit db c = Some v \<longrightarrow> v \<le> 9"
    and ok: "strptime db s = Inr t"
  shows "\<exists>y m d H M. t = DateTime y m d H M \<and> 1 \<le> y \<and> 1 \<le> m \<and> m \<le> 12
           \<and> 1 \<le> d \<and> d \<le> days_in_month y m \<and> H \<le> 23 \<and> M \<le> 59"
proof -
  from ok obtain y m d H M rest others where
    ms: "strptime_matches db s = (y, m, d, H, M, rest) # others"
    by (cases "strptime_matches db s") (auto simp: strptime_def)
  with ok have t: "t = DateTime y m d H M" and y: "1 \<le> y" and dm: "d \<le> days_in_month y m"
    by (auto simp: strptime_def split: if_splits)
  from ms have "(y, m, d, H, M, rest) \<in> set (strptime_matches db s)" by simp
  from strptime_matches_elim [OF this] obtain r1 r2 r3 r4 r5 r6 r7 where
    "(m, r2) \<in> set (field_m r1)" "(d, r4) \<in> set (field_d db r3)"
    "(H, r6) \<in> set (field_H db r5)" "(M, rest) \<in> set (field_M db r7)" by blast
  with field_m_bounds field_d_lower field_H_bound [OF digits] field_M_bound [OF digits]
  have "1 \<le> m \<and> m \<le> 12" "1 \<le> d" "H \<le> 23" "M \<le> 59" by blast+
  with t y dm show ?thesis by blast
qed

lemma strptime_error: "strptime db s = Inl e \<Longrightarrow> e = ValueError"
  by (auto simp: strptime_def split: list.splits if_splits)

lemma parse_schedule_error: "parse_schedule db r = Inl e \<Longrightarrow> e = ValueError"
  by (cases "strptime db (the r)")
     (auto simp: parse_schedule_def split: option.splits if_splits dest: strptime_error)

lemma ascii_digit: "48 \<le> c \<Longrightarrow> c \<le> 57 \<Longrightarrow> digit_val db c = Some (c - 48)"
  by (simp add: digit_val_def)

lemma parse_schedule_example:
  "parse_schedule db (Some (asc ''2024-01-15 10:30'')) = Inr (DateTimeV (DateTime 2024 1 15 10 30))"
  by (simp add: parse_schedule_def strptime_def strptime_matches_def field_Y_def field_m_def
      field_d_def field_H_def field_M_def two_def re_digit_def re_range_def re_lit_def
      re_spaces_def digit_val_def is_space_def asc_def days_in_month_def)

lemma field_Y_fixed:
  "a \<le> 9 \<Longrightarrow> b \<le> 9 \<Longrightarrow> c \<le> 9 \<Longrightarrow> d \<le> 9 \<Longrightarrow>
   field_Y db ((48 + a) # (48 + b) # (48 + c) # (48 + d) # r) = [(1000 * a + 100 * b + 10 * c + d, r)]"
  by (simp add: field_Y_def two_def re_digit_def digit_val_def)

lemma field_m_digits:
  assumes "u \<le> 9" "1 \<le> 10 * q + u" "10 * q + u \<le> 12"
  shows "concat (map (\<lambda>(v, r2). concat (map (f v) (re_lit 45 r2)))
           (field_m ((48 + q) # (48 + u) # 45 # r))) = f (10 * q + u) r"
proof -
  from assms have "q = 0 \<or> q = 1" by linarith
  then show ?thesis
  proof
    assume "q = 0"
    with assms show ?thesis by (simp add: field_m_def two_def re_range_def re_lit_def)
  next
    assume "q = 1"
    with assms show ?thesis by (simp add: field_m_def two_def re_range_def re_lit_def)
  qed
qed

lemma re_spaces_one:
  "h \<le> 9 \<Longrightarrow> re_spaces db (32 # (48 + h) # r) = [(48 + h) # r]"
  by (simp add: re_spaces_def is_space_def)

lemma re_spaces_digit: "h \<le> 9 \<Longrightarrow> re_spaces db ((48 + h) # r) = []"
  by (simp add: re_spaces_def is_space_def)

lemma field_d_digits:
  assumes "u \<le> 9" "1 \<le> 10 * q + u" "10 * q + u \<le> 31" "h \<le> 9"
  shows "concat (map (\<lambda>(v, r4). concat (map (g v) (re_spaces db r4)))
           (field_d db ((48 + q) # (48 + u) # 32 # (48 + h) # r)))
         = g (10 * q + u) ((48 + h) # r)"
proof -
  from assms have "q = 0 \<or> q = 1 \<or> q = 2 \<or> q = 3" by linarith
  then consider (zero) "q = 0" | (one) "q = 1" | (two) "q = 2" | (three) "q = 3" by auto
  then show ?thesis
  proof cases
    case zero
    with assms show ?thesis
      by (simp add: field_d_def two_def re_range_def re_lit_def re_digit_def digit_val_def
          re_spaces_one re_spaces_digit)
  next
    case one
    with assms show ?thesis
      by (simp add: field_d_def two_def re_range_def re_lit_def re_digit_def digit_val_def
          re_spaces_one re_spaces_digit)
  next
    case two
    with assms show ?thesis
      by (simp add: field_d_def two_def re_range_def re_lit_def re_digit_def digit_val_def
          re_spaces_one re_spaces_digit)
  next
    case three
    with assms show ?thesis
      by (simp add: field_d_def two_def re_range_def re_lit_def re_digit_def digit_val_def
          re_spaces_one re_spaces_digit)
  qed
qed

lemma field_H_digits:
  assumes "u \<le> 9" "10 * q + u \<le> 23"
  shows "concat (map (\<lambda>(v, r6). concat (map (g v) (re_lit 58 r6)))
           (field_H db ((48 + q) # (48 + u) # 58 # r))) = g (10 * q + u) r"
proof -
  from assms have "q = 0 \<or> q = 1 \<or> q = 2" by linarith
  then consider (zero) "q = 0" | (one) "q = 1" | (two) "q = 2" by auto
  then show ?thesis
  proof cases
    case zero
    with assms show ?thesis
      by (simp add: field_H_def two_def re_range_def re_lit_def re_digit_def digit_val_def)
  next
    case one
    with assms show ?thesis
      by (simp add: field_H_def two_def re_range_def re_lit_def re_digit_def digit_val_def)
  next
    case two
    with assms show ?thesis
      by (simp add: field_H_def two_def re_range_def re_lit_def re_digit_def digit_val_def)
  qed
qed

lemma field_M_digits:
  assumes "u \<le> 9" "10 * q + u \<le> 59"
  shows "field_M db [48 + q, 48 + u] = [(10 * q + u, []), (q, [48 + u])]"
proof -
  from assms have "q \<le> 5" by linarith
  with assms show ?thesis
    by (simp add: field_M_def two_def re_range_def re_digit_def digit_val_def)
qed

lemma re_lit_hit: "re_lit c (c # r) = [r]"
  by (simp add: re_lit_def)

lemma days_in_month_le: "days_in_month y m \<le> 31"
  by (simp add: days_in_month_def)

lemma digits_of:
  fixes x :: nat
  shows "x mod 10 \<le> 9" and "10 * (x div 10) + x mod 10 = x"
  by simp_all

lemma strptime_matches_fixed:
  assumes y: "y \<le> 9999" and m: "1 \<le> m" "m \<le> 12" and d: "1 \<le> d" "d \<le> 31"
    and H: "H \<le> 23" and M: "M \<le> 59"
  shows "strptime_matches db (fixed_string y m d H M)
         = [(y, m, d, H, M, []), (y, m, d, H, M div 10, [48 + M mod 10])]"
proof -
  have dg: "y div 1000 mod 10 \<le> 9" "y div 100 mod 10 \<le> 9" "y div 10 mod 10 \<le> 9" "y mod 10 \<le> 9"
    by simp_all
  have yv: "1000 * (y div 1000 mod 10) + 100 * (y div 100 mod 10) + 10 * (y div 10 mod 10) + y mod 10 = y"
  proof -
    have a: "y div 1000 mod 10 = y div 1000" using y by simp
    have b: "y div 100 = 10 * (y div 1000) + y div 100 mod 10"
      using div_mult2_eq [of y 100 10] by simp
    have c: "y div 10 = 10 * (y div 100) + y div 10 mod 10"
      using div_mult2_eq [of y 10 10] by simp
    have e: "y = 10 * (y div 10) + y mod 10" by simp
    from a b c e show ?thesis by linarith
  qed
  have h9: "H div 10 \<le> 9" using H by simp
  have fm: "concat (map (\<lambda>(v, r2). concat (map (f v) (re_lit 45 r2)))
           (field_m ((48 + m div 10) # (48 + m mod 10) # 45 # r))) = f m r" for f r
    using field_m_digits [of "m mod 10" "m div 10" f r] m by (simp only: digits_of)
  have fd: "concat (map (\<lambda>(v, r4). concat (map (g v) (re_spaces db r4)))
           (field_d db ((48 + d div 10) # (48 + d mod 10) # 32 # (48 + H div 10) # r)))
         = g d ((48 + H div 10) # r)" for g r
    using field_d_digits [of "d mod 10" "d div 10" "H div 10" g db r] d h9 by (simp only: digits_of)
  have fH: "concat (map (\<lambda>(v, r6). concat (map (g v) (re_lit 58 r6)))
           (field_H db ((48 + H div 10) # (48 + H mod 10) # 58 # r))) = g H r" for g r
    using field_H_digits [of "H mod 10" "H div 10" g db r] H by (simp only: digits_of)
  have fM: "field_M db [48 + M div 10, 48 + M mod 10] = [(M, []), (M div 10, [48 + M mod 10])]"
    using field_M_digits [of "M mod 10" "M div 10" db] M by (simp only: digits_of)
  show ?thesis
    unfolding strptime_matches_def fixed_string_def
    apply (simp only: field_Y_fixed [OF dg] yv)
    apply (simp only: list.map concat.simps append_Nil2 prod.case re_lit_hit)
    apply (simp only: fm)
    apply (simp only: fd)
    apply (simp only: fH)
    apply (simp only: fM list.map prod.case)
    done
qed

lemma strptime_fixed:
  assumes "1 \<le> y" "y \<le> 9999" "1 \<le> m" "m \<le> 12" "1 \<le> d" "d \<le> days_in_month y m"
    "H \<le> 23" "M \<le> 59"
  shows "strptime db (fixed_string y m d H M) = Inr (DateTime y m d H M)"
proof -
  from assms(6) days_in_month_le [of y m] have "d \<le> 31" by linarith
  from strptime_matches_fixed [OF assms(2,3,4,5) this assms(7,8)] assms(1,6)
  show ?thesis by (simp add: strptime_def)
qed

end
